theory Spec2Isabelle
  imports Complex_Main "HOL-Library.Monad_Syntax"
begin

section \<open>Conventions of the embedding\<close>

text \<open>
  The program is Python. Its unbounded integers are \<open>int\<close> (loop indices of \<open>range\<close> are
  \<open>nat\<close>), its dictionaries are association lists in insertion order or records with
  optional fields, and a \<open>raise\<close> is the \<open>Inl\<close> branch of a sum.

  A Python float is the real number it denotes. Comparisons of floats are exact. The
  results of the float operations that build the note zones, normalise the finger tips
  and encode the control values are rounded to binary64 by \<open>fl\<close>, and a float literal
  \<open>c\<close> there is \<open>fl c\<close>. The remaining float arithmetic (velocity, movement,
  envelope) is written without rounding.

  \<open>time.time()\<close> is an input: each modelled call takes the wall-clock reading \<open>now\<close> and
  uses it for every clock read the call makes.

  A call that never returns has the value \<open>None\<close> of \<open>option\<close>.
\<close>

subsection \<open>Python helpers\<close>

text \<open>\<open>int(x)\<close> on a float truncates towards zero.\<close>

definition py_int :: "real \<Rightarrow> int" where
  "py_int x = (if 0 \<le> x then \<lfloor>x\<rfloor> else \<lceil>x\<rceil>)"

text \<open>
  Rounding to binary64, to nearest with ties to even: 53 significant bits, exponent of
  the leading bit at least -1022 (below that the subnormal spacing \<open>2^-1074\<close>).
  Overflow to infinity is left out: no value of the program comes near \<open>2^1024\<close>.
\<close>

definition pow2 :: "int \<Rightarrow> real" where
  "pow2 k = (if 0 \<le> k then 2 ^ nat k else 1 / 2 ^ nat (- k))"

definition round_half_even :: "real \<Rightarrow> int" where
  "round_half_even q =
     (let f = \<lfloor>q\<rfloor>; r = q - of_int f
      in if r < 1 / 2 then f else if 1 / 2 < r then f + 1 else if even f then f else f + 1)"

definition expo :: "real \<Rightarrow> int" where
  "expo x = max \<lfloor>log 2 \<bar>x\<bar>\<rfloor> (- 1022)"

definition fl :: "real \<Rightarrow> real" where
  "fl x = (if x = 0 then 0 else of_int (round_half_even (x / pow2 (expo x - 52))) * pow2 (expo x - 52))"

text \<open>\<open>str(n)\<close> for a non-negative integer, as used by the f-strings.\<close>

definition digit_char :: "nat \<Rightarrow> char" where
  "digit_char d = ''0123456789'' ! d"

function str_nat :: "nat \<Rightarrow> string" where
  "str_nat n = (if n < 10 then [digit_char n] else str_nat (n div 10) @ [digit_char (n mod 10)])"
  by pat_completeness auto
termination
  by (relation "measure (\<lambda>n. n)") auto

declare str_nat.simps [simp del]

text \<open>\<open>d.get(k, default)\<close> and \<open>k in d\<close> on a dictionary kept as an association list.\<close>

definition dict_get :: "('k \<times> 'v) list \<Rightarrow> 'k \<Rightarrow> 'v \<Rightarrow> 'v" where
  "dict_get d k dflt = (case map_of d k of None \<Rightarrow> dflt | Some v \<Rightarrow> v)"

definition dict_has :: "('k \<times> 'v) list \<Rightarrow> 'k \<Rightarrow> bool" where
  "dict_has d k = (map_of d k \<noteq> None)"

text \<open>\<open>d[k] = v\<close>: replaces the value of an existing key in place, appends a new key.\<close>

fun dict_set :: "('k \<times> 'v) list \<Rightarrow> 'k \<Rightarrow> 'v \<Rightarrow> ('k \<times> 'v) list" where
  "dict_set [] k v = [(k, v)]"
| "dict_set ((k', v') # d) k v = (if k' = k then (k, v) # d else (k', v') # dict_set d k v)"

text \<open>
  A Python \<open>set\<close> of integers is the list of its elements in iteration order, without
  repetition. \<open>add\<close> and \<open>discard\<close> keep it so. (The iteration order of a Python set is
  unspecified; the order chosen here, insertion order, is one admissible order.)
\<close>

definition set_add :: "int \<Rightarrow> int list \<Rightarrow> int list" where
  "set_add n xs = (if n \<in> set xs then xs else xs @ [n])"

definition set_discard :: "int \<Rightarrow> int list \<Rightarrow> int list" where
  "set_discard n xs = removeAll n xs"

section \<open>midi\_generator.py\<close>

subsection \<open>Events and state\<close>

text \<open>The event dictionaries, one constructor per value of the \<open>'type'\<close> key.\<close>

datatype midi_event =
    is_NoteOn: NoteOn (ev_note: int) (ev_velocity: int) (ev_channel: int) (ev_timestamp: real)
           (ev_note_name: string) (ev_finger: string)
  | is_NoteOff: NoteOff (ev_note: int) (ev_velocity: int) (ev_channel: int) (ev_timestamp: real)
  | is_ControlChange: ControlChange (ev_control: int) (ev_value: int) (ev_channel: int) (ev_timestamp: real)
  | is_PitchWheel: PitchWheel (ev_pitch: int) (ev_channel: int) (ev_timestamp: real)

text \<open>Messages of the MIDI track: the two set-up messages and channel messages with a delta time.\<close>

datatype track_msg =
    SetTempo int
  | ProgramChange int int
  | ChannelMsg midi_event int

text \<open>
  The fields of \<open>MIDIGenerator\<close>. \<open>note_lock\<close> is a \<open>threading.Lock\<close>: \<open>True\<close> when held.
\<close>

record midi_generator =
  current_notes :: "int list"
  note_lock :: bool
  sustain_pedal :: bool
  track :: "track_msg list"
  last_event_time :: real

definition default_velocity :: int where "default_velocity = 64"
definition default_channel :: int where "default_channel = 0"
definition tempo :: int where "tempo = 500000"

text \<open>\<open>__init__\<close> with \<open>_add_initial_setup\<close>; \<open>now\<close> is the clock reading of the constructor.\<close>

definition init_generator :: "real \<Rightarrow> midi_generator" where
  "init_generator now =
     \<lparr> current_notes = [], note_lock = False, sustain_pedal = False,
       track = [SetTempo tempo, ProgramChange default_channel 0],
       last_event_time = now \<rparr>"

subsection \<open>The lock\<close>

text \<open>
  \<open>threading.Lock\<close> is not reentrant: \<open>acquire\<close> waits until the lock is free, whoever
  holds it. Every use in the class is a \<open>with self.note_lock:\<close> block, so only the holder
  releases; inside one call nothing else changes the state, and waiting is a loop that
  re-tests the flag.
\<close>

partial_function (option) acquire :: "midi_generator \<Rightarrow> midi_generator option" where
  "acquire s = (if note_lock s then acquire s else Some (s\<lparr>note_lock := True\<rparr>))"

declare acquire.simps [code]

definition release :: "midi_generator \<Rightarrow> midi_generator" where
  "release s = s\<lparr>note_lock := False\<rparr>"

subsection \<open>Note events\<close>

text \<open>The dictionaries of the \<open>'notes'\<close> list; a missing key is \<open>None\<close>.\<close>

record note_data =
  nd_note_number :: "int option"
  nd_note_name :: "string option"
  nd_velocity :: "int option"
  nd_finger :: "string option"
  nd_position :: "(real \<times> real) option"

text \<open>The \<open>note_on\<close> dictionary that \<open>_create_note_event\<close> returns for the clamped values.\<close>

definition note_on_event :: "note_data \<Rightarrow> int \<Rightarrow> int \<Rightarrow> real \<Rightarrow> midi_event" where
  "note_on_event nd note_number velocity timestamp =
     NoteOn note_number velocity default_channel timestamp
       (case nd_note_name nd of None \<Rightarrow> ''Note_'' @ str_nat (nat note_number) | Some nm \<Rightarrow> nm)
       (case nd_finger nd of None \<Rightarrow> ''unknown'' | Some f \<Rightarrow> f)"

definition create_note_event ::
    "note_data \<Rightarrow> real \<Rightarrow> midi_generator \<Rightarrow> (midi_event option \<times> midi_generator) option" where
  "create_note_event nd timestamp s =
     (case nd_note_number nd of
        None \<Rightarrow> Some (None, s)
      | Some n \<Rightarrow>
          (let note_number = max 0 (min 127 n);
               velocity = max 1 (min 127 (case nd_velocity nd of None \<Rightarrow> default_velocity | Some v \<Rightarrow> v))
           in do {
             s1 \<leftarrow> acquire s;
             if note_number \<in> set (current_notes s1) then Some (None, release s1)
             else
               (let s2 = release (s1\<lparr>current_notes := set_add note_number (current_notes s1)\<rparr>)
                in Some (Some (note_on_event nd note_number velocity timestamp), s2))
           }))"

definition stop_note :: "int \<Rightarrow> real \<Rightarrow> midi_generator \<Rightarrow> (midi_event \<times> midi_generator) option" where
  "stop_note note_number now s =
     do {
       s1 \<leftarrow> acquire s;
       let s2 = release (s1\<lparr>current_notes := set_discard note_number (current_notes s1)\<rparr>);
       Some (NoteOff note_number 0 default_channel now, s2)
     }"

text \<open>The \<open>for\<close> loop of \<open>_stop_all_notes\<close> over the snapshot \<open>list(self.current_notes)\<close>.\<close>

fun stop_notes_loop ::
    "int list \<Rightarrow> real \<Rightarrow> midi_event list \<Rightarrow> midi_generator \<Rightarrow> (midi_event list \<times> midi_generator) option" where
  "stop_notes_loop [] now events s = Some (events, s)"
| "stop_notes_loop (n # ns) now events s =
     do {
       (ev, s') \<leftarrow> stop_note n now s;
       stop_notes_loop ns now (events @ [ev]) s'
     }"

definition stop_all_notes :: "real \<Rightarrow> midi_generator \<Rightarrow> (midi_event list \<times> midi_generator) option" where
  "stop_all_notes now s =
     do {
       s1 \<leftarrow> acquire s;
       (events, s2) \<leftarrow> stop_notes_loop (current_notes s1) now [] s1;
       Some (events, release (s2\<lparr>current_notes := []\<rparr>))
     }"

definition create_sustain_event :: "bool \<Rightarrow> real \<Rightarrow> midi_event" where
  "create_sustain_event sustain_on now =
     ControlChange 64 (if sustain_on then 127 else 0) default_channel now"

subsection \<open>Continuous controls\<close>

definition process_controls :: "(string \<times> real) list \<Rightarrow> real \<Rightarrow> midi_event list" where
  "process_controls controls now =
     (if dict_has controls ''pitch_bend''
      then [PitchWheel (max 0 (min 16383 (py_int (fl (fl (dict_get controls ''pitch_bend'' 0 * 8192) + 8192)))))
              default_channel now]
      else [])
     @ (if dict_has controls ''modulation''
        then [ControlChange 1 (max 0 (min 127 (py_int (fl (\<bar>dict_get controls ''modulation'' 0\<bar> * 127)))))
                default_channel now]
        else [])
     @ (if dict_has controls ''volume''
        then [ControlChange 7 (max 0 (min 127 (py_int (fl (dict_get controls ''volume'' 0 * 127)))))
                default_channel now]
        else [])"

subsection \<open>The MIDI track\<close>

text \<open>
  \<open>_add_to_midi_file\<close>. The four event types are the constructors of \<open>midi_event\<close>, so
  the branch for an unknown type has no input here. \<open>mido.Message\<close> is library code: it
  raises \<open>ValueError\<close> for a channel outside 0..15, a data byte (note, velocity,
  controller, value) outside 0..127 and a pitch outside -8192..8191. The \<open>except\<close>
  clause prints the error, and neither the track nor \<open>last_event_time\<close> changes.
\<close>

definition data_byte :: "int \<Rightarrow> bool" where
  "data_byte b \<longleftrightarrow> 0 \<le> b \<and> b \<le> 127"

fun message_accepted :: "midi_event \<Rightarrow> bool" where
  "message_accepted (NoteOn n v c t nm f) \<longleftrightarrow> 0 \<le> c \<and> c \<le> 15 \<and> data_byte n \<and> data_byte v"
| "message_accepted (NoteOff n v c t) \<longleftrightarrow> 0 \<le> c \<and> c \<le> 15 \<and> data_byte n \<and> data_byte v"
| "message_accepted (ControlChange k v c t) \<longleftrightarrow> 0 \<le> c \<and> c \<le> 15 \<and> data_byte k \<and> data_byte v"
| "message_accepted (PitchWheel p c t) \<longleftrightarrow> 0 \<le> c \<and> c \<le> 15 \<and> - 8192 \<le> p \<and> p \<le> 8191"

definition add_to_midi_file :: "midi_event \<Rightarrow> real \<Rightarrow> midi_generator \<Rightarrow> midi_generator" where
  "add_to_midi_file event now s =
     (let current_time = now;
          delta_time = max 0 (py_int ((current_time - last_event_time s) * 480))
      in if message_accepted event
         then s\<lparr>track := track s @ [ChannelMsg event delta_time], last_event_time := current_time\<rparr>
         else s)"

subsection \<open>Processing one gesture dictionary\<close>

text \<open>
  The gesture dictionary built by \<open>analyze_hand\<close>. \<open>g_action\<close> is \<open>gestures.get('action')\<close>,
  \<open>None\<close> when the key is missing; a missing \<open>'notes'\<close> or \<open>'controls'\<close> key reads as empty.
  The \<open>'movements'\<close> entry is always the empty dictionary and is never read; it is left out.
\<close>

record gestures =
  g_handedness :: string
  g_timestamp :: real
  g_notes :: "note_data list"
  g_controls :: "(string \<times> real) list"
  g_extended_fingers :: nat
  g_gesture_type :: string
  g_action :: "string option"

fun note_events_loop ::
    "note_data list \<Rightarrow> real \<Rightarrow> midi_event list \<Rightarrow> midi_generator \<Rightarrow> (midi_event list \<times> midi_generator) option" where
  "note_events_loop [] current_time midi_events s = Some (midi_events, s)"
| "note_events_loop (nd # nds) current_time midi_events s =
     do {
       (midi_event, s') \<leftarrow> create_note_event nd current_time s;
       note_events_loop nds current_time
         (case midi_event of None \<Rightarrow> midi_events | Some e \<Rightarrow> midi_events @ [e]) s'
     }"

definition process_gestures ::
    "gestures \<Rightarrow> real \<Rightarrow> midi_generator \<Rightarrow> (midi_event list \<times> midi_generator) option" where
  "process_gestures g now s =
     do {
       (action_events, s1) \<leftarrow>
         (if g_action g = Some ''stop_all_notes'' then stop_all_notes now s
          else if g_action g = Some ''sustain_notes''
          then Some ([create_sustain_event True now], s\<lparr>sustain_pedal := True\<rparr>)
          else Some ([create_sustain_event False now], s\<lparr>sustain_pedal := False\<rparr>));
       (note_events, s2) \<leftarrow> note_events_loop (g_notes g) now action_events s1;
       let midi_events = note_events @ process_controls (g_controls g) now;
       Some (midi_events, fold (\<lambda>event. add_to_midi_file event now) midi_events s2)
     }"

subsection \<open>Sequences of sequencer operations\<close>

text \<open>
  A driver for laws about several calls in a row: \<open>Trigger nd t\<close> is the call
  \<open>_create_note_event(nd, t)\<close>, \<open>Off n t\<close> is the call \<open>_stop_note(n)\<close> at clock reading
  \<open>t\<close>. \<open>run_ops\<close> makes the calls in order and collects the events they return.
\<close>

datatype seq_op = Trigger note_data real | Off int real

fun run_ops :: "seq_op list \<Rightarrow> midi_generator \<Rightarrow> (midi_event list \<times> midi_generator) option" where
  "run_ops [] s = Some ([], s)"
| "run_ops (Trigger nd t # ops) s =
     do {
       (e, s1) \<leftarrow> create_note_event nd t s;
       (es, s2) \<leftarrow> run_ops ops s1;
       Some ((case e of None \<Rightarrow> [] | Some ev \<Rightarrow> [ev]) @ es, s2)
     }"
| "run_ops (Off n t # ops) s =
     do {
       (e, s1) \<leftarrow> stop_note n t s;
       (es, s2) \<leftarrow> run_ops ops s1;
       Some (e # es, s2)
     }"

text \<open>The note-on events for pitch \<open>p\<close> in an event list.\<close>

definition note_ons :: "int \<Rightarrow> midi_event list \<Rightarrow> midi_event list" where
  "note_ons p evs = filter (\<lambda>e. is_NoteOn e \<and> ev_note e = p) evs"

text \<open>
  The pitch-wheel value as the specification words it,
  \<open>round(pitch_bend * 8192 + 8192)\<close> clamped to \<open>[0, 16383]\<close>, for comparison with
  \<open>process_controls\<close>.
\<close>

definition spec_pitch_value :: "real \<Rightarrow> int" where
  "spec_pitch_value v = max 0 (min 16383 (round (v * 8192 + 8192)))"

section \<open>gesture\_recognizer.py\<close>

subsection \<open>The note zones\<close>

record zone =
  z_x_range :: "real \<times> real"
  z_y_range :: "real \<times> real"
  z_note_number :: int

definition note_names :: "string list" where
  "note_names = [''C'', ''C#'', ''D'', ''D#'', ''E'', ''F'', ''F#'', ''G'', ''G#'', ''A'', ''A#'', ''B'']"

definition get_note_name :: "nat \<Rightarrow> string" where
  "get_note_name note_index =
     (let octave = note_index div 12; note = note_names ! (note_index mod 12)
      in note @ str_nat octave)"

text \<open>The body of the inner loop of \<open>_create_note_zones\<close>: the key and the zone it stores.\<close>

definition zone_entry :: "nat \<Rightarrow> nat \<Rightarrow> string \<times> zone" where
  "zone_entry octave zone =
     (let note_index = octave * 12 + zone * 2;
          note_name = get_note_name note_index;
          x_start = fl (real zone * fl 0.2);
          x_end = fl (real (zone + 1) * fl 0.2);
          y_start = fl (real octave * fl 0.14);
          y_end = fl (real (octave + 1) * fl 0.14)
      in (note_name,
          \<lparr> z_x_range = (x_start, x_end), z_y_range = (y_start, y_end),
            z_note_number = int note_index + 60 \<rparr>))"

definition create_note_zones :: "(string \<times> zone) list" where
  "create_note_zones =
     fold (\<lambda>octave zones.
             fold (\<lambda>zone zones. dict_set zones (fst (zone_entry octave zone)) (snd (zone_entry octave zone)))
                  [0 ..< 5] zones)
          [0 ..< 7] []"

text \<open>\<open>self.note_zones\<close>, set once by the constructor.\<close>

definition note_zones :: "(string \<times> zone) list" where
  "note_zones = create_note_zones"

text \<open>\<open>_position_to_note\<close>: a scan of the dictionary in insertion order; the first zone that
  contains the point is returned as (note name, note number).\<close>

fun position_scan :: "(string \<times> zone) list \<Rightarrow> real \<Rightarrow> real \<Rightarrow> (string \<times> int) option" where
  "position_scan [] x y = None"
| "position_scan ((note_name, zone) # zs) x y =
     (if fst (z_x_range zone) \<le> x \<and> x \<le> snd (z_x_range zone) \<and>
         fst (z_y_range zone) \<le> y \<and> y \<le> snd (z_y_range zone)
      then Some (note_name, z_note_number zone)
      else position_scan zs x y)"

definition position_to_note :: "real \<Rightarrow> real \<Rightarrow> (string \<times> int) option" where
  "position_to_note x y = position_scan note_zones x y"


subsection \<open>The hand-pose record\<close>

text \<open>
  The dictionaries the recognizer reads; a missing key is \<open>None\<close>. The empty dictionary
  \<open>{}\<close> that the tracker returns for fewer than 21 landmarks is the record with every
  field \<open>None\<close>. Keys the recognizer never reads (\<open>landmarks\<close>, \<open>bounding_box\<close>,
  \<open>hand_angle\<close>, \<open>palm_center\<close>) are left out.
\<close>

record finger_positions =
  fp_tips :: "(string \<times> real \<times> real) list option"
  fp_mcp :: "(string \<times> real \<times> real) list option"
  fp_wrist :: "(real \<times> real) option"

record gesture_features =
  gf_finger_states :: "(string \<times> bool) list option"
  gf_hand_size :: "real option"

record hand_data =
  hd_handedness :: "string option"
  hd_center :: "(real \<times> real) option"
  hd_finger_positions :: "finger_positions option"
  hd_gesture_features :: "gesture_features option"

record prev_position =
  pp_center :: "real \<times> real"
  pp_timestamp :: real
  pp_finger_positions :: finger_positions

text \<open>The mutable field of \<open>GestureRecognizer\<close>; the thresholds are constants.\<close>

record recognizer =
  previous_positions :: "(string \<times> prev_position) list"

definition velocity_threshold :: real where "velocity_threshold = 50"

definition init_recognizer :: recognizer where
  "init_recognizer = \<lparr> previous_positions = [] \<rparr>"

datatype py_error = KeyError string

text \<open>\<open>hand_data.get('handedness', 'Unknown')\<close> and
  \<open>hand_data.get('gesture_features', {}).get('finger_states', {})\<close>.\<close>

definition get_handedness :: "hand_data \<Rightarrow> string" where
  "get_handedness hand = (case hd_handedness hand of None \<Rightarrow> ''Unknown'' | Some h \<Rightarrow> h)"

definition get_finger_states :: "hand_data \<Rightarrow> (string \<times> bool) list" where
  "get_finger_states hand =
     (case hd_gesture_features hand of
        None \<Rightarrow> []
      | Some gf \<Rightarrow> (case gf_finger_states gf of None \<Rightarrow> [] | Some fs \<Rightarrow> fs))"

subsection \<open>Note triggering\<close>

definition calculate_note_velocity ::
    "hand_data \<Rightarrow> string \<Rightarrow> real \<Rightarrow> recognizer \<Rightarrow> py_error + int" where
  "calculate_note_velocity hand finger_name now r =
     (let base_velocity = (64::real);
          hand_size = (case hd_gesture_features hand of
                         None \<Rightarrow> 100
                       | Some gf \<Rightarrow> (case gf_hand_size gf of None \<Rightarrow> 100 | Some h \<Rightarrow> h));
          size_factor = min (hand_size / 100) 2;
          handedness = get_handedness hand
      in case map_of (previous_positions r) handedness of
           None \<Rightarrow> Inr (max 1 (min 127 (py_int (base_velocity * size_factor * 1))))
         | Some prev_data \<Rightarrow>
             (case hd_center hand of
                None \<Rightarrow> Inl (KeyError ''center'')
              | Some current_center \<Rightarrow>
                  (let prev_center = pp_center prev_data;
                       time_diff = now - pp_timestamp prev_data;
                       speed_factor =
                         (if time_diff > 0
                          then min ((sqrt ((fst current_center - fst prev_center)\<^sup>2 +
                                           (snd current_center - snd prev_center)\<^sup>2) / time_diff) / 100) 2
                          else 1)
                   in Inr (max 1 (min 127 (py_int (base_velocity * size_factor * speed_factor)))))))"

fun finger_notes_loop ::
    "(string \<times> real \<times> real) list \<Rightarrow> (string \<times> bool) list \<Rightarrow> hand_data \<Rightarrow> real \<Rightarrow> recognizer \<Rightarrow>
     note_data list \<Rightarrow> py_error + note_data list" where
  "finger_notes_loop [] finger_states hand now r notes = Inr notes"
| "finger_notes_loop ((finger_name, tip_position) # tips) finger_states hand now r notes =
     (if dict_get finger_states finger_name False
      then
        (let norm_x = fl (fst tip_position / 640); norm_y = fl (snd tip_position / 480)
         in case position_to_note norm_x norm_y of
              None \<Rightarrow> finger_notes_loop tips finger_states hand now r notes
            | Some (note_name, note_number) \<Rightarrow>
                (case calculate_note_velocity hand finger_name now r of
                   Inl e \<Rightarrow> Inl e
                 | Inr velocity \<Rightarrow>
                     finger_notes_loop tips finger_states hand now r
                       (notes @ [\<lparr> nd_note_number = Some note_number, nd_note_name = Some note_name,
                                   nd_velocity = Some velocity, nd_finger = Some finger_name,
                                   nd_position = Some (norm_x, norm_y) \<rparr>])))
      else finger_notes_loop tips finger_states hand now r notes)"

text \<open>
  \<open>not finger_positions or 'tips' not in finger_positions\<close>: the default \<open>{}\<close> of a missing
  key and a dictionary without \<open>'tips'\<close> both return the empty list.
\<close>

definition analyze_finger_positions :: "hand_data \<Rightarrow> real \<Rightarrow> recognizer \<Rightarrow> py_error + note_data list" where
  "analyze_finger_positions hand now r =
     (case hd_finger_positions hand of
        None \<Rightarrow> Inr []
      | Some fp \<Rightarrow>
          (case fp_tips fp of
             None \<Rightarrow> Inr []
           | Some tips \<Rightarrow> finger_notes_loop tips (get_finger_states hand) hand now r []))"

subsection \<open>Movement controls\<close>

definition analyze_hand_movement ::
    "hand_data \<Rightarrow> string \<Rightarrow> real \<Rightarrow> recognizer \<Rightarrow> py_error + (string \<times> real) list" where
  "analyze_hand_movement hand handedness now r =
     (case hd_center hand of
        None \<Rightarrow> Inl (KeyError ''center'')
      | Some current_center \<Rightarrow>
          (case map_of (previous_positions r) handedness of
             None \<Rightarrow> Inr []
           | Some prev_data \<Rightarrow>
               (let prev_center = pp_center prev_data;
                    time_diff = now - pp_timestamp prev_data
                in if time_diff > 0
                   then
                     (let dx = fst current_center - fst prev_center;
                          dy = snd current_center - snd prev_center;
                          velocity = sqrt (dx\<^sup>2 + dy\<^sup>2) / time_diff;
                          controls1 =
                            (if velocity > velocity_threshold
                             then (if \<bar>dx\<bar> > \<bar>dy\<bar>
                                   then dict_set [] ''pitch_bend''
                                          ((if dx > 0 then 1 else - 1) * min (velocity / 100) 1)
                                   else dict_set [] ''modulation''
                                          ((if dy < 0 then 1 else - 1) * min (velocity / 100) 1))
                             else []);
                          norm_x = fst current_center / 640;
                          norm_y = snd current_center / 480;
                          controls2 = dict_set controls1 ''position_x'' norm_x;
                          controls3 = dict_set controls2 ''position_y'' norm_y
                      in Inr (dict_set controls3 ''volume'' (max 0.1 (1 - norm_y))))
                   else Inr [])))"

subsection \<open>Gesture patterns\<close>

text \<open>\<open>sum(finger_states.values())\<close>: a \<open>True\<close> counts 1, a \<open>False\<close> counts 0.\<close>

definition sum_values :: "(string \<times> bool) list \<Rightarrow> nat" where
  "sum_values finger_states = sum_list (map (\<lambda>(k, extended). if extended then 1 else 0) finger_states)"

definition is_fist :: "(string \<times> bool) list \<Rightarrow> bool" where
  "is_fist finger_states = (sum_values finger_states = 0)"

definition is_open_hand :: "(string \<times> bool) list \<Rightarrow> bool" where
  "is_open_hand finger_states = (sum_values finger_states \<ge> 4)"

definition is_pointing :: "(string \<times> bool) list \<Rightarrow> bool" where
  "is_pointing finger_states =
     (dict_get finger_states ''index'' False \<and>
      \<not> dict_get finger_states ''middle'' False \<and>
      \<not> dict_get finger_states ''ring'' False \<and>
      \<not> dict_get finger_states ''pinky'' False)"

definition is_peace_sign :: "(string \<times> bool) list \<Rightarrow> bool" where
  "is_peace_sign finger_states =
     (dict_get finger_states ''index'' False \<and>
      dict_get finger_states ''middle'' False \<and>
      \<not> dict_get finger_states ''ring'' False \<and>
      \<not> dict_get finger_states ''pinky'' False)"

text \<open>The \<open>patterns\<close> dictionary: extended-finger count, gesture type, action.\<close>

record patterns =
  p_extended_fingers :: nat
  p_gesture_type :: string
  p_action :: string

definition recognize_gesture_patterns :: "hand_data \<Rightarrow> patterns" where
  "recognize_gesture_patterns hand =
     (let finger_states = get_finger_states hand;
          extended_count = length (filter (\<lambda>(k, extended). extended) finger_states)
      in if is_fist finger_states
         then \<lparr> p_extended_fingers = extended_count, p_gesture_type = ''fist'', p_action = ''stop_all_notes'' \<rparr>
         else if is_open_hand finger_states
         then \<lparr> p_extended_fingers = extended_count, p_gesture_type = ''open_hand'', p_action = ''sustain_notes'' \<rparr>
         else if is_pointing finger_states
         then \<lparr> p_extended_fingers = extended_count, p_gesture_type = ''pointing'', p_action = ''single_note'' \<rparr>
         else if is_peace_sign finger_states
         then \<lparr> p_extended_fingers = extended_count, p_gesture_type = ''peace'', p_action = ''chord_mode'' \<rparr>
         else \<lparr> p_extended_fingers = extended_count, p_gesture_type = ''custom'', p_action = ''multi_note'' \<rparr>)"

subsection \<open>analyze\_hand\<close>

text \<open>
  The three analyses in the order of the source, then the store into
  \<open>previous_positions\<close>, whose dictionary display reads \<open>hand_data['center']\<close> before
  \<open>hand_data['finger_positions']\<close>; a subscript of a missing key raises \<open>KeyError\<close>.
\<close>

definition analyze_hand :: "hand_data \<Rightarrow> real \<Rightarrow> recognizer \<Rightarrow> py_error + (gestures \<times> recognizer)" where
  "analyze_hand hand now r =
     (let handedness = get_handedness hand
      in case analyze_finger_positions hand now r of
           Inl e \<Rightarrow> Inl e
         | Inr finger_notes \<Rightarrow>
             (case analyze_hand_movement hand handedness now r of
                Inl e \<Rightarrow> Inl e
              | Inr movement_controls \<Rightarrow>
                  (let gesture_patterns = recognize_gesture_patterns hand;
                       g = \<lparr> g_handedness = handedness, g_timestamp = now,
                             g_notes = finger_notes, g_controls = movement_controls,
                             g_extended_fingers = p_extended_fingers gesture_patterns,
                             g_gesture_type = p_gesture_type gesture_patterns,
                             g_action = Some (p_action gesture_patterns) \<rparr>
                   in case hd_center hand of
                        None \<Rightarrow> Inl (KeyError ''center'')
                      | Some center \<Rightarrow>
                          (case hd_finger_positions hand of
                             None \<Rightarrow> Inl (KeyError ''finger_positions'')
                           | Some fp \<Rightarrow>
                               Inr (g, r\<lparr>previous_positions :=
                                           dict_set (previous_positions r) handedness
                                             \<lparr> pp_center = center, pp_timestamp = now,
                                               pp_finger_positions = fp \<rparr>\<rparr>)))))"

text \<open>
  The classification as the specification words it, on the set of extended fingers of a
  five-finger hand: none extended, four or more, exactly the index, exactly index and
  middle, anything else.
\<close>

definition extended_set :: "(string \<times> bool) list \<Rightarrow> string set" where
  "extended_set finger_states = set (map fst (filter snd finger_states))"

definition spec_action :: "string set \<Rightarrow> string" where
  "spec_action E =
     (if card E = 0 then ''stop_all_notes''
      else if card E \<ge> 4 then ''sustain_notes''
      else if E = {''index''} then ''single_note''
      else if E = {''index'', ''middle''} then ''chord_mode''
      else ''multi_note'')"

section \<open>audio\_engine.py\<close>

definition note_duration :: real where "note_duration = 0.5"

definition calculate_envelope :: "real \<Rightarrow> real \<Rightarrow> real" where
  "calculate_envelope t duration =
     (let attack_time = 0.1; decay_time = 0.2; sustain_level = 0.7; release_time = 0.3
      in if t < attack_time then t / attack_time
         else if t < attack_time + decay_time
         then (let decay_progress = (t - attack_time) / decay_time
               in 1 - (1 - sustain_level) * decay_progress)
         else if t < duration - release_time then sustain_level
         else (let release_progress = (t - (duration - release_time)) / release_time
               in sustain_level * (1 - release_progress)))"

section \<open>Facts about rounding\<close>

text \<open>
  \<open>fl\<close> is evaluated from the exponent of its argument; it maps a number below
  \<open>2^53\<close> to a number between the neighbouring integers; and a binary64 number times
  8192 is a binary64 number.
\<close>

lemma pow2_powr: "pow2 k = 2 powr (of_int k)"
proof (cases "0 \<le> k")
  case True
  then show ?thesis by (simp add: pow2_def powr_realpow [symmetric])
next
  case False
  then have "2 powr (of_int k) = 1 / (2::real) powr (of_int (- k))"
    by (simp add: powr_minus_divide)
  also have "\<dots> = 1 / 2 ^ nat (- k)"
    using False by (simp add: powr_realpow [symmetric])
  finally show ?thesis using False by (simp add: pow2_def)
qed

lemma pow2_pos: "0 < pow2 k"
  by (simp add: pow2_powr)

lemma pow2_add: "pow2 (a + b) = pow2 a * pow2 b"
  by (simp add: pow2_powr powr_add)

lemma pow2_nat: "0 \<le> k \<Longrightarrow> pow2 k = of_int (2 ^ nat k)"
  by (simp add: pow2_def)

lemma expo_eq:
  assumes "pow2 e \<le> \<bar>x\<bar>" and "\<bar>x\<bar> < pow2 (e + 1)" and "- 1022 \<le> e"
  shows "expo x = e"
proof -
  have pos: "0 < \<bar>x\<bar>" using assms(1) pow2_pos [of e] by linarith
  have "of_int e \<le> log 2 \<bar>x\<bar>"
    using assms(1) pos by (simp add: le_log_iff pow2_powr)
  moreover have "log 2 \<bar>x\<bar> < of_int e + 1"
    using assms(2) pos by (simp add: log_less_iff pow2_powr)
  ultimately have "\<lfloor>log 2 \<bar>x\<bar>\<rfloor> = e" by (simp add: floor_eq_iff)
  with assms(3) show ?thesis by (simp add: expo_def)
qed

lemma fl_eval:
  assumes "pow2 e \<le> \<bar>x\<bar>" and "\<bar>x\<bar> < pow2 (e + 1)" and "- 1022 \<le> e"
  shows "fl x = of_int (round_half_even (x / pow2 (e - 52))) * pow2 (e - 52)"
proof -
  have "x \<noteq> 0" using assms(1) pow2_pos [of e] by auto
  then show ?thesis by (simp add: fl_def expo_eq [OF assms])
qed

lemma round_half_even_bounds: "\<lfloor>q\<rfloor> \<le> round_half_even q \<and> round_half_even q \<le> \<lceil>q\<rceil>"
  by (auto simp add: round_half_even_def Let_def ceiling_altdef)

lemma round_half_even_of_int: "round_half_even (of_int m) = m"
  by (simp add: round_half_even_def)

lemma pow2_inverse: "k \<le> 0 \<Longrightarrow> pow2 k * 2 ^ nat (- k) = 1"
  by (cases "k = 0") (simp_all add: pow2_def)

lemma expo_le:
  assumes "x \<noteq> 0" and "\<bar>x\<bar> < pow2 (e + 1)" and "- 1022 \<le> e"
  shows "expo x \<le> e"
proof -
  have "log 2 \<bar>x\<bar> < of_int e + 1"
    using assms(1,2) by (simp add: log_less_iff pow2_powr)
  then have "\<lfloor>log 2 \<bar>x\<bar>\<rfloor> \<le> e" by (simp add: floor_le_iff)
  with assms(3) show ?thesis by (simp add: expo_def)
qed


lemma fl_between_integers:
  assumes "\<bar>x\<bar> < 9007199254740992"
  shows "of_int \<lfloor>x\<rfloor> \<le> fl x \<and> fl x \<le> of_int \<lceil>x\<rceil>"
proof (cases "x = 0")
  case True
  then show ?thesis by (simp add: fl_def)
next
  case False
  define k where "k = expo x - 52"
  define N :: int where "N = 2 ^ nat (- k)"
  define s where "s = pow2 k"
  have "\<bar>x\<bar> < pow2 (52 + 1)" using assms by (simp add: pow2_def)
  from expo_le [OF False this] have k: "k \<le> 0" by (simp add: k_def)
  have s: "0 < s" by (simp add: s_def pow2_pos)
  have sN: "s * of_int N = 1" using k by (simp add: s_def N_def pow2_inverse)
  have Npos: "0 < N" by (simp add: N_def)
  have q: "x / s = x * of_int N" using sN s by (simp add: field_simps)
  have fl: "fl x = of_int (round_half_even (x * of_int N)) * s"
    using False by (simp add: fl_def k_def [symmetric] s_def [symmetric] q)
  have lo: "\<lfloor>x\<rfloor> * N \<le> round_half_even (x * of_int N)"
  proof -
    have "of_int (\<lfloor>x\<rfloor> * N) \<le> x * of_int N"
      using Npos by (simp add: mult_right_mono)
    then have "\<lfloor>x\<rfloor> * N \<le> \<lfloor>x * of_int N\<rfloor>" by (simp add: le_floor_iff)
    with round_half_even_bounds [of "x * of_int N"] show ?thesis by linarith
  qed
  have hi: "round_half_even (x * of_int N) \<le> \<lceil>x\<rceil> * N"
  proof -
    have "x * of_int N \<le> of_int (\<lceil>x\<rceil> * N)"
      using Npos by (simp add: mult_right_mono)
    then have "\<lceil>x * of_int N\<rceil> \<le> \<lceil>x\<rceil> * N" by (simp add: ceiling_le_iff)
    with round_half_even_bounds [of "x * of_int N"] show ?thesis by linarith
  qed
  have "of_int \<lfloor>x\<rfloor> = of_int (\<lfloor>x\<rfloor> * N) * s"
    using sN by (simp add: mult.assoc mult.commute [of _ s])
  also have "\<dots> \<le> of_int (round_half_even (x * of_int N)) * s"
  proof -
    from lo have "(of_int (\<lfloor>x\<rfloor> * N) :: real) \<le> of_int (round_half_even (x * of_int N))"
      by (simp only: of_int_le_iff)
    then show ?thesis using s by (intro mult_right_mono) simp_all
  qed
  finally have a: "of_int \<lfloor>x\<rfloor> \<le> fl x" by (simp add: fl)
  have "of_int (round_half_even (x * of_int N)) * s \<le> of_int (\<lceil>x\<rceil> * N) * s"
  proof -
    from hi have "(of_int (round_half_even (x * of_int N)) :: real) \<le> of_int (\<lceil>x\<rceil> * N)"
      by (simp only: of_int_le_iff)
    then show ?thesis using s by (intro mult_right_mono) simp_all
  qed
  also have "\<dots> = of_int \<lceil>x\<rceil>"
    using sN by (simp add: mult.assoc mult.commute [of _ s])
  finally have b: "fl x \<le> of_int \<lceil>x\<rceil>" by (simp add: fl)
  from a b show ?thesis ..
qed

lemma expo_scale13: "x \<noteq> 0 \<Longrightarrow> expo (x * 8192) \<le> expo x + 13"
proof -
  assume x: "x \<noteq> 0"
  have l: "log 2 (8192::real) = 13"
    using log_pow_cancel [of "2::real" 13] by simp
  have "log 2 \<bar>x * 8192\<bar> = log 2 \<bar>x\<bar> + 13"
    using x by (simp add: abs_mult log_mult l)
  then have "\<lfloor>log 2 \<bar>x * 8192\<bar>\<rfloor> = \<lfloor>log 2 \<bar>x\<bar>\<rfloor> + 13" by simp
  then show ?thesis by (simp add: expo_def)
qed

lemma fl_scale13:
  assumes "fl v = v"
  shows "fl (v * 8192) = v * 8192"
proof (cases "v = 0")
  case True
  then show ?thesis by (simp add: fl_def)
next
  case False
  define k where "k = expo v - 52"
  define k' where "k' = expo (v * 8192) - 52"
  define n where "n = round_half_even (v / pow2 k)"
  define d where "d = k + 13 - k'"
  have v: "v = of_int n * pow2 k"
    using assms False by (simp add: fl_def k_def n_def)
  have d: "0 \<le> d" using expo_scale13 [OF False] by (simp add: d_def k_def k'_def)
  have "pow2 (k + 13) = pow2 d * pow2 k'"
    unfolding pow2_add [symmetric] by (simp add: d_def)
  moreover have "pow2 (k + 13) = pow2 k * 8192" by (simp add: pow2_add) (simp add: pow2_def)
  ultimately have sc: "pow2 k * 8192 = pow2 d * pow2 k'" by simp
  have "v * 8192 = of_int n * (pow2 k * 8192)" by (subst v) simp
  also have "\<dots> = of_int (n * 2 ^ nat d) * pow2 k'"
    using d by (simp add: sc pow2_nat)
  finally have v8: "v * 8192 = of_int (n * 2 ^ nat d) * pow2 k'" .
  have "v * 8192 / pow2 k' = of_int (n * 2 ^ nat d)"
    using pow2_pos [of k'] by (simp add: v8)
  then have "round_half_even (v * 8192 / pow2 k') = n * 2 ^ nat d"
    by (simp only: round_half_even_of_int)
  then have "fl (v * 8192) = of_int (n * 2 ^ nat d) * pow2 k'"
    using False by (simp add: fl_def k'_def [symmetric])
  with v8 show ?thesis by simp
qed

section \<open>Facts about the sequencer\<close>

subsection \<open>The lock\<close>

text \<open>Waiting for a held lock never ends; a free lock is taken at once.\<close>

lemma acquire_Some_free: "acquire s = Some y \<Longrightarrow> \<not> note_lock s"
  by (rule acquire.raw_induct [where P = "\<lambda>s y. \<not> note_lock s"]) (simp_all split: if_splits)

lemma acquire_held: "note_lock s \<Longrightarrow> acquire s = None"
  using acquire_Some_free [of s] by (cases "acquire s") auto

lemma acquire_free: "\<not> note_lock s \<Longrightarrow> acquire s = Some (s\<lparr>note_lock := True\<rparr>)"
  by (subst acquire.simps) simp

lemma stop_note_held: "note_lock s \<Longrightarrow> stop_note n now s = None"
  by (simp add: stop_note_def acquire_held)

lemma stop_note_free:
  "\<not> note_lock s \<Longrightarrow>
   stop_note n now s =
     Some (NoteOff n 0 default_channel now, s\<lparr>current_notes := set_discard n (current_notes s)\<rparr>)"
  by (simp add: stop_note_def acquire_free release_def)

lemma stop_notes_loop_held:
  "note_lock s \<Longrightarrow> ns \<noteq> [] \<Longrightarrow> stop_notes_loop ns now events s = None"
  by (cases ns) (simp_all add: stop_note_held)

lemma stop_all_notes_nonempty:
  "current_notes s \<noteq> [] \<Longrightarrow> stop_all_notes now s = None"
proof (cases "note_lock s")
  case True
  then show ?thesis by (simp add: stop_all_notes_def acquire_held)
next
  case False
  assume "current_notes s \<noteq> []"
  with False show ?thesis
    by (simp add: stop_all_notes_def acquire_free stop_notes_loop_held)
qed

lemma stop_all_notes_empty:
  "\<not> note_lock s \<Longrightarrow> current_notes s = [] \<Longrightarrow> stop_all_notes now s = Some ([], s)"
  by (simp add: stop_all_notes_def acquire_free release_def)

lemma process_gestures_stop_all_nonempty:
  "g_action g = Some ''stop_all_notes'' \<Longrightarrow> current_notes s \<noteq> [] \<Longrightarrow> process_gestures g now s = None"
  by (simp add: process_gestures_def stop_all_notes_nonempty)

lemma process_gestures_stop_all_held:
  "g_action g = Some ''stop_all_notes'' \<Longrightarrow> note_lock s \<Longrightarrow> process_gestures g now s = None"
  by (simp add: process_gestures_def stop_all_notes_def acquire_held)

lemma create_note_event_free:
  "\<not> note_lock s \<Longrightarrow> nd_note_number nd = Some n \<Longrightarrow>
   create_note_event nd t s =
     (if max 0 (min 127 n) \<in> set (current_notes s) then Some (None, s)
      else Some (Some (note_on_event nd (max 0 (min 127 n))
                         (max 1 (min 127 (case nd_velocity nd of None \<Rightarrow> default_velocity | Some v \<Rightarrow> v))) t),
                 s\<lparr>current_notes := current_notes s @ [max 0 (min 127 n)]\<rparr>))"
  by (simp add: create_note_event_def acquire_free release_def set_add_def Let_def)

lemma create_note_event_None:
  "nd_note_number nd = None \<Longrightarrow> create_note_event nd t s = Some (None, s)"
  by (simp add: create_note_event_def)

lemma create_note_event_returns:
  assumes "\<not> note_lock s"
  shows "\<exists>e s'. create_note_event nd t s = Some (e, s') \<and> \<not> note_lock s' \<and>
           sustain_pedal s' = sustain_pedal s \<and> (\<forall>ev. e = Some ev \<longrightarrow> is_NoteOn ev)"
proof (cases "nd_note_number nd")
  case None
  with assms show ?thesis by (simp add: create_note_event_None)
next
  case (Some n)
  with assms show ?thesis by (simp add: create_note_event_free note_on_event_def)
qed

lemma note_events_loop_returns:
  "\<not> note_lock s \<Longrightarrow>
   \<exists>more s'. note_events_loop nds t acc s = Some (acc @ more, s') \<and> \<not> note_lock s' \<and>
     sustain_pedal s' = sustain_pedal s \<and> (\<forall>ev \<in> set more. is_NoteOn ev)"
proof (induction nds arbitrary: acc s)
  case Nil
  then show ?case by simp
next
  case (Cons nd nds)
  from create_note_event_returns [OF Cons.prems, of nd t]
  obtain e s1 where c: "create_note_event nd t s = Some (e, s1)" and f: "\<not> note_lock s1"
    and sp: "sustain_pedal s1 = sustain_pedal s" and on: "\<forall>ev. e = Some ev \<longrightarrow> is_NoteOn ev"
    by blast
  from Cons.IH [OF f, of "case e of None \<Rightarrow> acc | Some ev \<Rightarrow> acc @ [ev]"]
  obtain more s' where
    l: "note_events_loop nds t (case e of None \<Rightarrow> acc | Some ev \<Rightarrow> acc @ [ev]) s1 =
          Some ((case e of None \<Rightarrow> acc | Some ev \<Rightarrow> acc @ [ev]) @ more, s')"
    and f': "\<not> note_lock s'" and sp': "sustain_pedal s' = sustain_pedal s1"
    and on': "\<forall>ev \<in> set more. is_NoteOn ev" by blast
  show ?case
  proof (cases e)
    case None
    with c l f' sp sp' on' show ?thesis by simp
  next
    case (Some ev)
    with on have "is_NoteOn ev" by simp
    with Some c l f' sp sp' on' show ?thesis
      by (intro exI [of _ "ev # more"] exI [of _ s']) simp
  qed
qed

lemma process_controls_no_sustain:
  "\<forall>e \<in> set (process_controls controls now). \<not> (is_ControlChange e \<and> ev_control e = 64)"
  by (auto simp add: process_controls_def)

lemma fold_add_to_midi_file_sustain:
  "sustain_pedal (fold (\<lambda>event. add_to_midi_file event now) evs s) = sustain_pedal s"
  by (induction evs arbitrary: s) (simp_all add: add_to_midi_file_def Let_def)

lemma count_list_removeAll_other:
  "n \<noteq> p \<Longrightarrow> count_list (removeAll n xs) p = count_list xs p"
  by (induction xs) auto

lemma count_list_append_one:
  "count_list (xs @ [n]) p = count_list xs p + (if n = p then 1 else 0)"
  by (induction xs) simp_all

lemma run_ops_keeps_sounding:
  assumes "\<not> note_lock s" and "p \<in> set (current_notes s)"
    and "\<forall>op \<in> set ops. \<forall>t. op \<noteq> Off p t"
  shows "\<exists>evs s'. run_ops ops s = Some (evs, s') \<and> note_ons p evs = [] \<and> \<not> note_lock s' \<and>
           count_list (current_notes s') p = count_list (current_notes s) p"
  using assms
proof (induction ops arbitrary: s)
  case Nil
  then show ?case by (simp add: note_ons_def)
next
  case (Cons op ops)
  show ?case
  proof (cases op)
    case (Trigger nd t)
    show ?thesis
    proof (cases "nd_note_number nd")
      case None
      from Cons.IH [of s] Cons.prems None Trigger show ?thesis
        by (auto simp: create_note_event_None)
    next
      case (Some n)
      let ?q = "max 0 (min 127 n)"
      show ?thesis
      proof (cases "?q \<in> set (current_notes s)")
        case True
        from Cons.IH [of s] Cons.prems obtain evs s' where
          "run_ops ops s = Some (evs, s')" "note_ons p evs = []" "\<not> note_lock s'"
          "count_list (current_notes s') p = count_list (current_notes s) p" by auto
        with True Some Trigger Cons.prems(1) show ?thesis
          by (simp add: create_note_event_free)
      next
        case False
        with Cons.prems(2) have qp: "?q \<noteq> p" by auto
        let ?s1 = "s\<lparr>current_notes := current_notes s @ [?q]\<rparr>"
        from Cons.IH [of ?s1] Cons.prems obtain evs s' where
          r: "run_ops ops ?s1 = Some (evs, s')" "note_ons p evs = []" "\<not> note_lock s'"
          "count_list (current_notes s') p = count_list (current_notes ?s1) p" by auto
        from qp have "count_list (current_notes ?s1) p = count_list (current_notes s) p"
          by (simp add: count_list_append_one)
        with r False Some Trigger Cons.prems(1) qp show ?thesis
          by (simp add: create_note_event_free note_ons_def note_on_event_def)
      qed
    qed
  next
    case (Off n t)
    with Cons.prems(3) have np: "n \<noteq> p" by auto
    let ?s1 = "s\<lparr>current_notes := set_discard n (current_notes s)\<rparr>"
    from np Cons.prems(2) have "p \<in> set (current_notes ?s1)" by (simp add: set_discard_def)
    with Cons.IH [of ?s1] Cons.prems obtain evs s' where
      r: "run_ops ops ?s1 = Some (evs, s')" "note_ons p evs = []" "\<not> note_lock s'"
      "count_list (current_notes s') p = count_list (current_notes ?s1) p" by auto
    from np have "count_list (current_notes ?s1) p = count_list (current_notes s) p"
      by (simp add: set_discard_def count_list_removeAll_other)
    with r Off Cons.prems(1) show ?thesis
      by (simp add: stop_note_free note_ons_def)
  qed
qed

lemma py_int_nonneg: "0 \<le> x \<Longrightarrow> py_int x = \<lfloor>x\<rfloor>"
  by (simp add: py_int_def)

lemma count_list_pos_mem: "count_list xs p = Suc 0 \<Longrightarrow> p \<in> set xs"
  by (metis count_list_0_iff nat.distinct(1))

lemma count_list_removeAll_self: "count_list (removeAll p xs) p = 0"
  by (simp add: count_list_0_iff)

lemma clamped_floor_error:
  fixes x :: real
  assumes nn: "0 \<le> x" and up: "x \<le> 16384"
  shows "0 \<le> fl x \<and> \<lfloor>x\<rfloor> \<le> \<lfloor>fl x\<rfloor> \<and> \<lfloor>fl x\<rfloor> \<le> \<lceil>x\<rceil> \<and>
         \<bar>real_of_int (max 0 (min 16383 \<lfloor>fl x\<rfloor>)) - x\<bar> \<le> 1"
proof -
  have "\<bar>x\<bar> < 9007199254740992" using nn up by simp
  from fl_between_integers [OF this]
  have b1: "of_int \<lfloor>x\<rfloor> \<le> fl x" and b2: "fl x \<le> of_int \<lceil>x\<rceil>" by simp_all
  have f0: "0 \<le> \<lfloor>x\<rfloor>" using nn by (simp only: zero_le_floor)
  have f2: "x < real_of_int \<lfloor>x\<rfloor> + 1" by linarith
  have c2: "real_of_int \<lceil>x\<rceil> < x + 1" by linarith
  have c3: "\<lceil>x\<rceil> \<le> 16384" using up by (simp add: ceiling_le_iff)
  have lo: "\<lfloor>x\<rfloor> \<le> \<lfloor>fl x\<rfloor>" using b1 by (simp only: le_floor_iff)
  have "fl x < of_int \<lceil>x\<rceil> + 1" using b2 by linarith
  then have hi: "\<lfloor>fl x\<rfloor> \<le> \<lceil>x\<rceil>" by (simp only: floor_le_iff)
  have pos: "0 \<le> fl x" using b1 f0 by linarith
  have err: "\<bar>real_of_int (max 0 (min 16383 \<lfloor>fl x\<rfloor>)) - x\<bar> \<le> 1"
  proof (cases "\<lfloor>fl x\<rfloor> \<le> 16383")
    case True
    from f0 lo have "0 \<le> \<lfloor>fl x\<rfloor>" by linarith
    with True have "max 0 (min 16383 \<lfloor>fl x\<rfloor>) = \<lfloor>fl x\<rfloor>"
      by (simp only: min_absorb2 max_absorb2)
    moreover have "real_of_int \<lfloor>x\<rfloor> \<le> real_of_int \<lfloor>fl x\<rfloor>" using lo by (simp only: of_int_le_iff)
    moreover have "real_of_int \<lfloor>fl x\<rfloor> \<le> real_of_int \<lceil>x\<rceil>" using hi by (simp only: of_int_le_iff)
    ultimately show ?thesis using f2 c2 by linarith
  next
    case False
    with hi c3 have "\<lceil>x\<rceil> = 16384" and e: "\<lfloor>fl x\<rfloor> = 16384" by linarith+
    with c2 have "16383 < x" by simp
    with up e show ?thesis by simp
  qed
  from pos lo hi err show ?thesis by blast
qed

section \<open>Facts about the note zones\<close>


text \<open>The literals \<open>0.2\<close> and \<open>0.14\<close>.\<close>

lemma lit_02: "fl 0.2 = 3602879701896397 / 18014398509481984"
  by (subst fl_eval [where e = "- 3"]) (simp_all add: pow2_def round_half_even_def Let_def)

lemma lit_014: "fl 0.14 = 1261007895663739 / 9007199254740992"
  by (subst fl_eval [where e = "- 3"]) (simp_all add: pow2_def round_half_even_def Let_def)














lemma upt5: "[0..<5] = [0, 1, 2, 3, 4]"
  by (simp add: upt_rec)

lemma upt7: "[0..<7] = [0, 1, 2, 3, 4, 5, 6]"
  by (simp add: upt_rec)



lemma zone_entry_eq:
  "zone_entry octave zone =
     (get_note_name (octave * 12 + zone * 2),
      \<lparr> z_x_range = (fl (real zone * (3602879701896397 / 18014398509481984)), fl (real (zone + 1) * (3602879701896397 / 18014398509481984))),
        z_y_range = (fl (real octave * (1261007895663739 / 9007199254740992)), fl (real (octave + 1) * (1261007895663739 / 9007199254740992))),
        z_note_number = int (octave * 12 + zone * 2) + 60 \<rparr>)"
  unfolding zone_entry_def Let_def lit_02 lit_014 ..

lemma fst_zone_entry: "fst (zone_entry octave zone) = get_note_name (octave * 12 + zone * 2)"
  by (simp add: zone_entry_def Let_def)

lemma note_zones_grid:
  "note_zones = concat (map (\<lambda>octave. map (zone_entry octave) [0..<5]) [0..<7])"
  by (simp add: note_zones_def create_note_zones_def upt5 upt7 fst_zone_entry prod_eq_iff
      get_note_name_def note_names_def str_nat.simps digit_char_def Let_def)

lemma set_note_zones:
  "set note_zones = {zone_entry octave zone | octave zone. octave < 7 \<and> zone < 5}"
  unfolding note_zones_grid by auto blast







section \<open>Facts about the gesture patterns\<close>

text \<open>
  For a dictionary (distinct keys) the sum over the values is the number of extended
  fingers, and \<open>get(k, False)\<close> is membership in the set of extended fingers.
\<close>

lemma sum_values_Cons:
  "sum_values ((k, extended) # fs) = (if extended then 1 else 0) + sum_values fs"
  by (simp add: sum_values_def)

lemma extended_set_Cons:
  "extended_set ((k, extended) # fs) = (if extended then insert k (extended_set fs) else extended_set fs)"
  by (simp add: extended_set_def)

lemma extended_set_keys: "extended_set fs \<subseteq> set (map fst fs)"
  by (auto simp add: extended_set_def)

lemma finite_extended_set: "finite (extended_set fs)"
  by (simp add: extended_set_def)

lemma sum_values_card:
  "distinct (map fst fs) \<Longrightarrow> sum_values fs = card (extended_set fs)"
proof (induction fs)
  case Nil
  then show ?case by (simp add: sum_values_def extended_set_def)
next
  case (Cons a fs)
  obtain k extended where a: "a = (k, extended)" by (cases a)
  from Cons.prems a have k: "k \<notin> extended_set fs" and d: "distinct (map fst fs)"
    using extended_set_keys [of fs] by auto
  from Cons.IH [OF d] k show ?case
    by (simp add: a sum_values_Cons extended_set_Cons finite_extended_set)
qed

lemma count_extended_card:
  "distinct (map fst fs) \<Longrightarrow> length (filter (\<lambda>(k, extended). extended) fs) = card (extended_set fs)"
proof -
  assume d: "distinct (map fst fs)"
  have "length (filter (\<lambda>(k, extended). extended) fs) = sum_values fs"
    by (induction fs) (auto simp add: sum_values_def)
  with sum_values_card [OF d] show ?thesis by simp
qed

lemma dict_get_extended:
  "distinct (map fst fs) \<Longrightarrow> dict_get fs k False \<longleftrightarrow> k \<in> extended_set fs"
proof (induction fs)
  case Nil
  then show ?case by (simp add: dict_get_def extended_set_def)
next
  case (Cons a fs)
  obtain k' extended where a: "a = (k', extended)" by (cases a)
  from Cons.prems a have k: "k' \<notin> extended_set fs" and d: "distinct (map fst fs)"
    using extended_set_keys [of fs] by auto
  from Cons.IH [OF d] k show ?case
    by (auto simp add: a dict_get_def extended_set_Cons)
qed

lemma clamp_high: "127 < n \<Longrightarrow> max 0 (min 127 n) = (127::int)"
  by simp

section \<open>The claims about the sequencer\<close>

subsection \<open>C1: the StopAll law\<close>

text \<open>
  C1 says that a StopAll gesture with N active pitches empties the active set and emits N
  NoteOff events. \<open>_stop_all_notes\<close> is written to do that (a NoteOff per snapshot
  element, then \<open>clear\<close>), but it calls \<open>_stop_note\<close> inside its own
  \<open>with self.note_lock\<close> block. With the two active pitches 60 and 64 of the
  specification's end-to-end scenario, \<open>process_gestures\<close> does not return: no event is
  emitted and the set is never cleared.
\<close>

theorem stop_all_law_fails_with_two_active_notes:
  "process_gestures
     \<lparr> g_handedness = ''Right'', g_timestamp = 0, g_notes = [], g_controls = [],
       g_extended_fingers = 0, g_gesture_type = ''fist'', g_action = Some ''stop_all_notes'' \<rparr>
     0 ((init_generator 0)\<lparr>current_notes := [60, 64]\<rparr>) = None"
  by (rule process_gestures_stop_all_nonempty) simp_all

subsection \<open>C2: StopAll with an active note never returns\<close>

text \<open>
  C2: for every state whose active set is not empty, \<open>_stop_all_notes\<close> does not
  return, and neither does \<open>process_gestures\<close> on a gesture whose action is
  \<open>stop_all_notes\<close>. When the lock is free on entry, the outer \<open>with\<close> takes it, and
  the nested \<open>_stop_note\<close> for the first active pitch then waits for the lock that its
  own caller holds.
\<close>

theorem stop_all_notes_never_returns:
  assumes "current_notes s \<noteq> []"
  shows "stop_all_notes now s = None \<and>
         (g_action g = Some ''stop_all_notes'' \<longrightarrow> process_gestures g now s = None) \<and>
         (\<not> note_lock s \<longrightarrow>
            (\<exists>s1. acquire s = Some s1 \<and> note_lock s1 \<and> current_notes s1 = current_notes s \<and>
                   stop_note (hd (current_notes s1)) now s1 = None))"
  using assms
  by (simp add: stop_all_notes_nonempty process_gestures_stop_all_nonempty acquire_free stop_note_held)

theorem stop_all_notes_never_returns_witness:
  "stop_all_notes 0 ((init_generator 0)\<lparr>current_notes := [60]\<rparr>) = None \<and>
   process_gestures
     \<lparr> g_handedness = ''Right'', g_timestamp = 0, g_notes = [], g_controls = [],
       g_extended_fingers = 0, g_gesture_type = ''fist'', g_action = Some ''stop_all_notes'' \<rparr>
     0 ((init_generator 0)\<lparr>current_notes := [60]\<rparr>) = None \<and>
   stop_note 60 0 ((init_generator 0)\<lparr>current_notes := [60], note_lock := True\<rparr>) = None"
  using stop_all_notes_never_returns [of "(init_generator 0)\<lparr>current_notes := [60]\<rparr>" 0
      "\<lparr> g_handedness = ''Right'', g_timestamp = 0, g_notes = [], g_controls = [],
       g_extended_fingers = 0, g_gesture_type = ''fist'', g_action = Some ''stop_all_notes'' \<rparr>"]
  by (simp add: init_generator_def acquire_free)

subsection \<open>C3: the dedup law\<close>

text \<open>
  C3: let \<open>p\<close> be the clamped pitch of two triggers \<open>nd\<close> and \<open>nd'\<close>, not sounding
  at first, and let \<open>ops\<close> be any calls between them that contain no NoteOff for \<open>p\<close>.
  Then the whole run emits exactly one NoteOn for \<open>p\<close>, the active set holds \<open>p\<close>
  once, and a further trigger for \<open>p\<close> returns no event and leaves the state as it is.
  After a NoteOff for \<open>p\<close>, the same trigger emits a new NoteOn for \<open>p\<close>.
\<close>

theorem dedup_law:
  assumes free: "\<not> note_lock s"
    and nd: "nd_note_number nd = Some n" "max 0 (min 127 n) = p"
    and nd': "nd_note_number nd' = Some n'" "max 0 (min 127 n') = p"
    and fresh: "p \<notin> set (current_notes s)"
    and no_off: "\<forall>op \<in> set ops. \<forall>t. op \<noteq> Off p t"
  shows "\<exists>evs s'.
           run_ops (Trigger nd t1 # ops @ [Trigger nd' t2]) s = Some (evs, s') \<and>
           length (note_ons p evs) = 1 \<and>
           count_list (current_notes s') p = 1 \<and>
           create_note_event nd' t3 s' = Some (None, s') \<and>
           (\<exists>e s''. run_ops [Off p t4, Trigger nd' t5] s' = Some ([NoteOff p 0 default_channel t4, e], s'') \<and>
                     is_NoteOn e \<and> ev_note e = p \<and> count_list (current_notes s'') p = 1)"
proof -
  let ?s1 = "s\<lparr>current_notes := current_notes s @ [p]\<rparr>"
  let ?e1 = "note_on_event nd p (max 1 (min 127 (case nd_velocity nd of None \<Rightarrow> default_velocity | Some v \<Rightarrow> v))) t1"
  have first: "create_note_event nd t1 s = Some (Some ?e1, ?s1)"
    using free nd fresh by (simp add: create_note_event_free)
  have c1: "count_list (current_notes ?s1) p = 1"
    using fresh by (simp add: count_list_append_one count_list_0_iff)
  have no_off': "\<forall>op \<in> set (ops @ [Trigger nd' t2]). \<forall>t. op \<noteq> Off p t"
    using no_off by simp
  from run_ops_keeps_sounding [of ?s1 p "ops @ [Trigger nd' t2]", OF _ _ no_off'] free
  obtain evs s' where rest: "run_ops (ops @ [Trigger nd' t2]) ?s1 = Some (evs, s')"
    and none: "note_ons p evs = []" and free': "\<not> note_lock s'"
    and cnt: "count_list (current_notes s') p = count_list (current_notes ?s1) p" by auto
  from cnt c1 have cnt1: "count_list (current_notes s') p = 1" by simp
  then have mem: "p \<in> set (current_notes s')" by (simp add: count_list_pos_mem)
  have run: "run_ops (Trigger nd t1 # ops @ [Trigger nd' t2]) s = Some (?e1 # evs, s')"
    using first rest by simp
  have ons: "length (note_ons p (?e1 # evs)) = 1"
    using none by (simp add: note_ons_def note_on_event_def)
  have again: "create_note_event nd' t3 s' = Some (None, s')"
    using free' nd' mem by (simp add: create_note_event_free)
  let ?s3 = "s'\<lparr>current_notes := set_discard p (current_notes s')\<rparr>"
  let ?e5 = "note_on_event nd' p (max 1 (min 127 (case nd_velocity nd' of None \<Rightarrow> default_velocity | Some v \<Rightarrow> v))) t5"
  let ?s5 = "?s3\<lparr>current_notes := current_notes ?s3 @ [p]\<rparr>"
  have off: "stop_note p t4 s' = Some (NoteOff p 0 default_channel t4, ?s3)"
    using free' by (simp add: stop_note_free)
  have new: "create_note_event nd' t5 ?s3 = Some (Some ?e5, ?s5)"
    using free' nd' by (simp add: create_note_event_free set_discard_def)
  have after: "run_ops [Off p t4, Trigger nd' t5] s' = Some ([NoteOff p 0 default_channel t4, ?e5], ?s5)"
    using off new by simp
  have e5: "is_NoteOn ?e5 \<and> ev_note ?e5 = p" by (simp add: note_on_event_def)
  have c5: "count_list (current_notes ?s5) p = 1"
    by (simp add: count_list_append_one set_discard_def count_list_removeAll_self)
  from run ons cnt1 again after e5 c5 show ?thesis by blast
qed

theorem dedup_law_witness:
  "\<exists>evs s'.
     run_ops (Trigger \<lparr> nd_note_number = Some 60, nd_note_name = Some ''C0'', nd_velocity = Some 64,
                         nd_finger = Some ''index'', nd_position = None \<rparr> 1
              # [Trigger \<lparr> nd_note_number = Some 62, nd_note_name = None, nd_velocity = None,
                            nd_finger = None, nd_position = None \<rparr> 2, Off 62 3]
              @ [Trigger \<lparr> nd_note_number = Some 60, nd_note_name = Some ''C0'', nd_velocity = Some 64,
                            nd_finger = Some ''index'', nd_position = None \<rparr> 4])
       (init_generator 0) = Some (evs, s') \<and>
     length (note_ons 60 evs) = 1 \<and>
     count_list (current_notes s') 60 = 1 \<and>
     (\<exists>e s''. run_ops [Off 60 6, Trigger \<lparr> nd_note_number = Some 60, nd_note_name = Some ''C0'',
                  nd_velocity = Some 64, nd_finger = Some ''index'', nd_position = None \<rparr> 7] s' =
                 Some ([NoteOff 60 0 default_channel 6, e], s'') \<and> is_NoteOn e \<and> ev_note e = 60)"
  using dedup_law [where s = "init_generator 0" and n = 60 and n' = 60 and p = 60
      and nd = "\<lparr> nd_note_number = Some 60, nd_note_name = Some ''C0'', nd_velocity = Some 64,
                  nd_finger = Some ''index'', nd_position = None \<rparr>"
      and nd' = "\<lparr> nd_note_number = Some 60, nd_note_name = Some ''C0'', nd_velocity = Some 64,
                  nd_finger = Some ''index'', nd_position = None \<rparr>"
      and ops = "[Trigger \<lparr> nd_note_number = Some 62, nd_note_name = None, nd_velocity = None,
                            nd_finger = None, nd_position = None \<rparr> 2, Off 62 3]"
      and ?t1.0 = 1 and ?t2.0 = 4 and ?t3.0 = 5 and ?t4.0 = 6 and ?t5.0 = 7]
  by (simp add: init_generator_def) blast

subsection \<open>C4: sustain is switched off on actions other than Sustain and StopAll\<close>

text \<open>
  C4, amended: on every gesture whose action is neither \<open>sustain_notes\<close> nor
  \<open>stop_all_notes\<close>, \<open>process_gestures\<close> returns, its first event is the control
  change of controller 64 with value 0, and the sustain flag is false afterwards (the
  lock being free on entry, as it is between calls). On a gesture whose action is
  \<open>stop_all_notes\<close> the call returns when no note is active, and whenever it returns
  the sustain flag is what it was and no event is a control change of controller 64.
\<close>

theorem sustain_reset_on_other_actions:
  "(\<not> note_lock s \<and>
    g_action g \<noteq> Some ''stop_all_notes'' \<and> g_action g \<noteq> Some ''sustain_notes'' \<longrightarrow>
            (\<exists>evs s'. process_gestures g now s = Some (ControlChange 64 0 default_channel now # evs, s') \<and>
               \<not> sustain_pedal s')) \<and>
         (g_action g = Some ''stop_all_notes'' \<longrightarrow>
            (\<not> note_lock s \<and> current_notes s = [] \<longrightarrow>
               (\<exists>evs s'. process_gestures g now s = Some (evs, s'))) \<and>
            (\<forall>evs s'. process_gestures g now s = Some (evs, s') \<longrightarrow>
               sustain_pedal s' = sustain_pedal s \<and>
               (\<forall>e \<in> set evs. \<not> (is_ControlChange e \<and> ev_control e = 64))))"
proof (intro conjI impI)
  assume "\<not> note_lock s \<and>
    g_action g \<noteq> Some ''stop_all_notes'' \<and> g_action g \<noteq> Some ''sustain_notes''"
  then have free: "\<not> note_lock s"
    and other: "g_action g \<noteq> Some ''stop_all_notes'' \<and> g_action g \<noteq> Some ''sustain_notes''"
    by simp_all
  let ?s1 = "s\<lparr>sustain_pedal := False\<rparr>"
  let ?a = "[create_sustain_event False now]"
  from free have "\<not> note_lock ?s1" by simp
  from note_events_loop_returns [OF this, of "g_notes g" now ?a]
  obtain more s2 where l: "note_events_loop (g_notes g) now ?a ?s1 = Some (?a @ more, s2)"
    and sp: "sustain_pedal s2 = sustain_pedal ?s1" by blast
  from l other have
    "process_gestures g now s =
       Some ((?a @ more) @ process_controls (g_controls g) now,
             fold (\<lambda>event. add_to_midi_file event now) ((?a @ more) @ process_controls (g_controls g) now) s2)"
    by (simp add: process_gestures_def Let_def)
  moreover have "\<not> sustain_pedal
      (fold (\<lambda>event. add_to_midi_file event now) ((?a @ more) @ process_controls (g_controls g) now) s2)"
    using sp by (simp only: fold_add_to_midi_file_sustain) simp
  ultimately show "\<exists>evs s'. process_gestures g now s =
      Some (ControlChange 64 0 default_channel now # evs, s') \<and> \<not> sustain_pedal s'"
    by (simp only: create_sustain_event_def append_Cons append_Nil if_False) blast
next
  assume stop: "g_action g = Some ''stop_all_notes''"
  have run: "\<exists>more s2. process_gestures g now s =
        Some (more @ process_controls (g_controls g) now,
              fold (\<lambda>event. add_to_midi_file event now) (more @ process_controls (g_controls g) now) s2) \<and>
        sustain_pedal s2 = sustain_pedal s \<and> (\<forall>ev \<in> set more. is_NoteOn ev)"
    if free: "\<not> note_lock s" and empty: "current_notes s = []"
  proof -
    from note_events_loop_returns [OF free, of "g_notes g" now "[]"]
    obtain more s2 where l: "note_events_loop (g_notes g) now [] s = Some (more, s2)"
      and sp: "sustain_pedal s2 = sustain_pedal s" and on: "\<forall>ev \<in> set more. is_NoteOn ev"
      by auto
    from l stop free empty have "process_gestures g now s =
        Some (more @ process_controls (g_controls g) now,
              fold (\<lambda>event. add_to_midi_file event now) (more @ process_controls (g_controls g) now) s2)"
      by (simp add: process_gestures_def stop_all_notes_empty Let_def)
    with sp on show ?thesis by blast
  qed
  show "\<not> note_lock s \<and> current_notes s = [] \<Longrightarrow>
          \<exists>evs s'. process_gestures g now s = Some (evs, s')"
    using run by blast
  show "\<forall>evs s'. process_gestures g now s = Some (evs, s') \<longrightarrow>
          sustain_pedal s' = sustain_pedal s \<and>
          (\<forall>e \<in> set evs. \<not> (is_ControlChange e \<and> ev_control e = 64))"
  proof (intro allI impI)
    fix evs s'
    assume r: "process_gestures g now s = Some (evs, s')"
    have free: "\<not> note_lock s"
    proof
      assume "note_lock s"
      from process_gestures_stop_all_held [OF stop this, of now] r show False by simp
    qed
    have empty: "current_notes s = []"
    proof (rule ccontr)
      assume "current_notes s \<noteq> []"
      from process_gestures_stop_all_nonempty [OF stop this, of now] r show False by simp
    qed
    from run [OF free empty] r obtain more s2 where
      evs: "evs = more @ process_controls (g_controls g) now"
      and s': "s' = fold (\<lambda>event. add_to_midi_file event now) (more @ process_controls (g_controls g) now) s2"
      and sp: "sustain_pedal s2 = sustain_pedal s" and on: "\<forall>ev \<in> set more. is_NoteOn ev"
      by auto
    have a: "sustain_pedal s' = sustain_pedal s"
      unfolding s' using sp by (simp only: fold_add_to_midi_file_sustain)
    have b: "\<forall>e \<in> set evs. \<not> (is_ControlChange e \<and> ev_control e = 64)"
    proof
      fix e
      assume "e \<in> set evs"
      then consider "e \<in> set more" | "e \<in> set (process_controls (g_controls g) now)"
        unfolding evs by auto
      then show "\<not> (is_ControlChange e \<and> ev_control e = 64)"
      proof cases
        case 1
        with on have "is_NoteOn e" by blast
        then show ?thesis by (cases e) simp_all
      next
        case 2
        with process_controls_no_sustain [of "g_controls g" now] show ?thesis by blast
      qed
    qed
    from a b show "sustain_pedal s' = sustain_pedal s \<and>
          (\<forall>e \<in> set evs. \<not> (is_ControlChange e \<and> ev_control e = 64))" ..
  qed
qed

theorem sustain_reset_on_other_actions_witness:
  "(\<exists>evs s'. process_gestures
       \<lparr> g_handedness = ''Right'', g_timestamp = 0, g_notes = [], g_controls = [],
         g_extended_fingers = 1, g_gesture_type = ''pointing'', g_action = Some ''single_note'' \<rparr>
       0 ((init_generator 0)\<lparr>sustain_pedal := True\<rparr>)
     = Some (ControlChange 64 0 default_channel 0 # evs, s') \<and> \<not> sustain_pedal s') \<and>
   (\<exists>evs s'. process_gestures
       \<lparr> g_handedness = ''Right'', g_timestamp = 0, g_notes = [], g_controls = [],
         g_extended_fingers = 0, g_gesture_type = ''fist'', g_action = Some ''stop_all_notes'' \<rparr>
       0 ((init_generator 0)\<lparr>sustain_pedal := True\<rparr>) = Some (evs, s') \<and> sustain_pedal s' \<and>
       (\<forall>e \<in> set evs. \<not> (is_ControlChange e \<and> ev_control e = 64)))"
proof -
  have free: "\<not> note_lock ((init_generator 0)\<lparr>sustain_pedal := True\<rparr>)"
    by (simp add: init_generator_def)
  have empty: "current_notes ((init_generator 0)\<lparr>sustain_pedal := True\<rparr>) = []"
    by (simp add: init_generator_def)
  note a = sustain_reset_on_other_actions [where s = "(init_generator 0)\<lparr>sustain_pedal := True\<rparr>"
      and now = 0 and g = "\<lparr> g_handedness = ''Right'', g_timestamp = 0, g_notes = [], g_controls = [],
         g_extended_fingers = 1, g_gesture_type = ''pointing'', g_action = Some ''single_note'' \<rparr>"]
  note b = sustain_reset_on_other_actions [where s = "(init_generator 0)\<lparr>sustain_pedal := True\<rparr>"
      and now = 0 and g = "\<lparr> g_handedness = ''Right'', g_timestamp = 0, g_notes = [], g_controls = [],
         g_extended_fingers = 0, g_gesture_type = ''fist'', g_action = Some ''stop_all_notes'' \<rparr>"]
  from a free have 1: "\<exists>evs s'. process_gestures
       \<lparr> g_handedness = ''Right'', g_timestamp = 0, g_notes = [], g_controls = [],
         g_extended_fingers = 1, g_gesture_type = ''pointing'', g_action = Some ''single_note'' \<rparr>
       0 ((init_generator 0)\<lparr>sustain_pedal := True\<rparr>)
     = Some (ControlChange 64 0 default_channel 0 # evs, s') \<and> \<not> sustain_pedal s'"
    by simp
  from b free empty obtain evs s' where r: "process_gestures
       \<lparr> g_handedness = ''Right'', g_timestamp = 0, g_notes = [], g_controls = [],
         g_extended_fingers = 0, g_gesture_type = ''fist'', g_action = Some ''stop_all_notes'' \<rparr>
       0 ((init_generator 0)\<lparr>sustain_pedal := True\<rparr>) = Some (evs, s')"
    by auto
  with b have "sustain_pedal s' = sustain_pedal ((init_generator 0)\<lparr>sustain_pedal := True\<rparr>) \<and>
      (\<forall>e \<in> set evs. \<not> (is_ControlChange e \<and> ev_control e = 64))"
    by simp
  with r have 2: "\<exists>evs s'. process_gestures
       \<lparr> g_handedness = ''Right'', g_timestamp = 0, g_notes = [], g_controls = [],
         g_extended_fingers = 0, g_gesture_type = ''fist'', g_action = Some ''stop_all_notes'' \<rparr>
       0 ((init_generator 0)\<lparr>sustain_pedal := True\<rparr>) = Some (evs, s') \<and> sustain_pedal s' \<and>
       (\<forall>e \<in> set evs. \<not> (is_ControlChange e \<and> ev_control e = 64))"
    by auto
  from 1 2 show ?thesis ..
qed

text \<open>
  C4 as stated includes StopAll frames. The \<open>stop_all_notes\<close> branch of
  \<open>process_gestures\<close> neither touches the flag nor emits a sustain event: with no active
  note and the flag set, the call returns no event at all and the flag stays set.
\<close>

theorem stop_all_leaves_sustain_untouched:
  "process_gestures
     \<lparr> g_handedness = ''Right'', g_timestamp = 0, g_notes = [], g_controls = [],
       g_extended_fingers = 0, g_gesture_type = ''fist'', g_action = Some ''stop_all_notes'' \<rparr>
     0 ((init_generator 0)\<lparr>sustain_pedal := True\<rparr>)
   = Some ([], (init_generator 0)\<lparr>sustain_pedal := True\<rparr>) \<and>
   sustain_pedal ((init_generator 0)\<lparr>sustain_pedal := True\<rparr>)"
  by (simp add: process_gestures_def stop_all_notes_empty init_generator_def process_controls_def dict_has_def)

subsection \<open>C8: pitch bend\<close>

text \<open>
  C8, amended: for every \<open>pitch_bend\<close> value \<open>v\<close> in \<open>[-1, 1]\<close> (a binary64 number)
  the first event of \<open>process_controls\<close> is the only pitch-wheel event; its value is
  \<open>int\<close> of the binary64 sum \<open>v * 8192 + 8192\<close>, clamped to \<open>[0, 16383]\<close>. Before
  clamping that is the exact sum truncated, or the next integer when the sum rounds up to
  it; it is not the rounded sum. Decoding the value as \<open>(value - 8192) / 8192\<close> recovers
  \<open>v\<close> to within \<open>1 / 8192\<close>.
\<close>

theorem pitch_bend_encoding:
  assumes pb: "map_of controls ''pitch_bend'' = Some v" and b64: "fl v = v"
    and lo: "- 1 \<le> v" and hi: "v \<le> 1"
  shows "(\<exists>rest. process_controls controls now =
            PitchWheel (max 0 (min 16383 \<lfloor>fl (v * 8192 + 8192)\<rfloor>)) default_channel now # rest \<and>
            (\<forall>e \<in> set rest. \<not> is_PitchWheel e)) \<and>
         \<lfloor>v * 8192 + 8192\<rfloor> \<le> \<lfloor>fl (v * 8192 + 8192)\<rfloor> \<and>
         \<lfloor>fl (v * 8192 + 8192)\<rfloor> \<le> \<lceil>v * 8192 + 8192\<rceil> \<and>
         \<bar>(real_of_int (max 0 (min 16383 \<lfloor>fl (v * 8192 + 8192)\<rfloor>)) - 8192) / 8192 - v\<bar> \<le> 1 / 8192"
proof -
  define x where "x = v * 8192 + 8192"
  have nn: "0 \<le> x" using lo by (simp add: x_def)
  have up: "x \<le> 16384" using hi by (simp add: x_def)
  from clamped_floor_error [OF nn up]
  have pos: "0 \<le> fl x" and fl_lo: "\<lfloor>x\<rfloor> \<le> \<lfloor>fl x\<rfloor>" and fl_hi: "\<lfloor>fl x\<rfloor> \<le> \<lceil>x\<rceil>"
    and err: "\<bar>real_of_int (max 0 (min 16383 \<lfloor>fl x\<rfloor>)) - x\<bar> \<le> 1" by blast+
  have dg: "fl (fl (dict_get controls ''pitch_bend'' 0 * 8192) + 8192) = fl x"
    using pb by (simp add: dict_get_def x_def fl_scale13 [OF b64])
  have pi: "py_int (fl x) = \<lfloor>fl x\<rfloor>" using pos by (rule py_int_nonneg)
  have pc: "process_controls controls now =
      PitchWheel (max 0 (min 16383 \<lfloor>fl x\<rfloor>)) default_channel now #
        ((if dict_has controls ''modulation''
          then [ControlChange 1 (max 0 (min 127 (py_int (fl (\<bar>dict_get controls ''modulation'' 0\<bar> * 127)))))
                  default_channel now]
          else [])
         @ (if dict_has controls ''volume''
            then [ControlChange 7 (max 0 (min 127 (py_int (fl (dict_get controls ''volume'' 0 * 127)))))
                    default_channel now]
            else []))"
    unfolding process_controls_def dg pi using pb
    by (simp add: dict_has_def)
  have first: "\<exists>rest. process_controls controls now =
            PitchWheel (max 0 (min 16383 \<lfloor>fl x\<rfloor>)) default_channel now # rest \<and>
            (\<forall>e \<in> set rest. \<not> is_PitchWheel e)"
    unfolding pc by auto
  have "(real_of_int (max 0 (min 16383 \<lfloor>fl x\<rfloor>)) - 8192) / 8192 - v =
        (real_of_int (max 0 (min 16383 \<lfloor>fl x\<rfloor>)) - x) / 8192"
    by (simp add: x_def field_simps)
  moreover have "\<bar>(real_of_int (max 0 (min 16383 \<lfloor>fl x\<rfloor>)) - x) / 8192\<bar> \<le> 1 / 8192"
    using err by simp
  ultimately have rt: "\<bar>(real_of_int (max 0 (min 16383 \<lfloor>fl x\<rfloor>)) - 8192) / 8192 - v\<bar> \<le> 1 / 8192"
    by (simp only:)
  from first fl_lo fl_hi rt show ?thesis unfolding x_def by blast
qed

text \<open>
  The witness is the binary64 number 0.7324218749999999, which is \<open>6000 / 8192\<close> less
  \<open>2^-53\<close>: the exact sum is \<open>14192 - 2^-40\<close>, a tie that rounds to 14192.0, so the
  value is 14192 where the exact sum truncates to 14191.
\<close>

theorem pitch_bend_encoding_witness:
  "(\<exists>rest. process_controls [(''pitch_bend'', (6597069766655999 / 9007199254740992)), (''volume'', 1 / 2)] 0 =
            PitchWheel 14192 default_channel 0 # rest \<and> (\<forall>e \<in> set rest. \<not> is_PitchWheel e)) \<and>
   \<lfloor>(6597069766655999 / 9007199254740992) * 8192 + 8192 :: real\<rfloor> = 14191 \<and>
   \<bar>(real_of_int 14192 - 8192) / 8192 - (6597069766655999 / 9007199254740992)\<bar> \<le> (1 / 8192 :: real)"
proof -
  have b64: "fl ((6597069766655999 / 9007199254740992)) = (6597069766655999 / 9007199254740992)"
    by (subst fl_eval [where e = "- 1"]) (simp_all add: pow2_def round_half_even_def Let_def)
  have "fl (15604269021396991 / 1099511627776) = 14192"
    by (subst fl_eval [where e = 13]) (simp_all add: pow2_def round_half_even_def Let_def)
  then have f: "\<lfloor>fl ((6597069766655999 / 9007199254740992) * 8192 + 8192)\<rfloor> = 14192" by simp
  have t: "\<lfloor>(6597069766655999 / 9007199254740992) * 8192 + 8192 :: real\<rfloor> = 14191" by (simp add: floor_eq_iff)
  from pitch_bend_encoding [where controls = "[(''pitch_bend'', (6597069766655999 / 9007199254740992)), (''volume'', 1 / 2)]"
        and v = "(6597069766655999 / 9007199254740992)" and now = 0, OF _ b64]
  show ?thesis unfolding f t by simp
qed

text \<open>
  C8 as stated has \<open>round\<close> where the code has \<open>int\<close>. At \<open>v = 3 / 32768\<close> the sum
  8192.75 is a binary64 number; the code computes \<open>int(8192.75) = 8192\<close>, the rounded
  value is 8193.
\<close>

theorem pitch_bend_truncates_not_rounds:
  "process_controls [(''pitch_bend'', 3 / 32768)] 0 = [PitchWheel 8192 default_channel 0] \<and>
   spec_pitch_value (3 / 32768) = 8193"
proof -
  have a: "fl (3 / 4) = 3 / 4"
    by (subst fl_eval [where e = "- 1"]) (simp_all add: pow2_def round_half_even_def Let_def)
  have b: "fl (32771 / 4) = 32771 / 4"
    by (subst fl_eval [where e = 13]) (simp_all add: pow2_def round_half_even_def Let_def)
  have f: "\<lfloor>32771 / 4 :: real\<rfloor> = 8192" by (simp add: floor_eq_iff)
  have r: "round (32771 / 4 :: real) = 8193" by (simp add: round_def floor_eq_iff)
  show ?thesis
    by (simp add: process_controls_def dict_has_def dict_get_def py_int_def spec_pitch_value_def a b f r)
qed

section \<open>The claims about the recognizer\<close>

subsection \<open>C5: pattern classification\<close>

text \<open>
  C5, amended: for every finger-state dictionary, with \<open>E\<close> the set of extended fingers,
  the action is StopAll when \<open>E\<close> is empty, else Sustain when \<open>E\<close> has four or more
  elements, else SingleNote when the index is extended and middle, ring and pinky are
  folded, else ChordMode when index and middle are extended and ring and pinky are
  folded, else MultiNote. The thumb is not looked at by the third and fourth rule. The
  reported count is the size of \<open>E\<close>. On a five-finger hand with the thumb folded this is
  the classification as C5 words it (\<open>spec_action\<close>).
\<close>

theorem gesture_pattern_priority:
  assumes d: "distinct (map fst (get_finger_states hand))"
  shows "p_action (recognize_gesture_patterns hand) =
           (let E = extended_set (get_finger_states hand)
            in if E = {} then ''stop_all_notes''
               else if 4 \<le> card E then ''sustain_notes''
               else if ''index'' \<in> E \<and> ''middle'' \<notin> E \<and> ''ring'' \<notin> E \<and> ''pinky'' \<notin> E
               then ''single_note''
               else if ''index'' \<in> E \<and> ''middle'' \<in> E \<and> ''ring'' \<notin> E \<and> ''pinky'' \<notin> E
               then ''chord_mode''
               else ''multi_note'') \<and>
         p_extended_fingers (recognize_gesture_patterns hand) = card (extended_set (get_finger_states hand)) \<and>
         (extended_set (get_finger_states hand) \<subseteq> {''thumb'', ''index'', ''middle'', ''ring'', ''pinky''} \<and>
          ''thumb'' \<notin> extended_set (get_finger_states hand) \<longrightarrow>
            p_action (recognize_gesture_patterns hand) = spec_action (extended_set (get_finger_states hand)))"
proof -
  define fs where "fs = get_finger_states hand"
  define E where "E = extended_set fs"
  have d': "distinct (map fst fs)" using d by (simp add: fs_def)
  have fin: "finite E" by (simp add: E_def finite_extended_set)
  have fist: "is_fist fs \<longleftrightarrow> E = {}"
    using fin by (simp add: is_fist_def sum_values_card [OF d'] E_def)
  have opn: "is_open_hand fs \<longleftrightarrow> 4 \<le> card E"
    by (simp add: is_open_hand_def sum_values_card [OF d'] E_def)
  have pt: "is_pointing fs \<longleftrightarrow> ''index'' \<in> E \<and> ''middle'' \<notin> E \<and> ''ring'' \<notin> E \<and> ''pinky'' \<notin> E"
    by (simp add: is_pointing_def dict_get_extended [OF d'] E_def)
  have pc: "is_peace_sign fs \<longleftrightarrow> ''index'' \<in> E \<and> ''middle'' \<in> E \<and> ''ring'' \<notin> E \<and> ''pinky'' \<notin> E"
    by (simp add: is_peace_sign_def dict_get_extended [OF d'] E_def)
  have act: "p_action (recognize_gesture_patterns hand) =
           (if E = {} then ''stop_all_notes''
               else if 4 \<le> card E then ''sustain_notes''
               else if ''index'' \<in> E \<and> ''middle'' \<notin> E \<and> ''ring'' \<notin> E \<and> ''pinky'' \<notin> E
               then ''single_note''
               else if ''index'' \<in> E \<and> ''middle'' \<in> E \<and> ''ring'' \<notin> E \<and> ''pinky'' \<notin> E
               then ''chord_mode''
               else ''multi_note'')"
    unfolding recognize_gesture_patterns_def Let_def fs_def [symmetric]
    by (simp only: fist opn pt pc if_distrib [of p_action] patterns.simps if_cancel)
  have cnt: "p_extended_fingers (recognize_gesture_patterns hand) = card E"
    unfolding recognize_gesture_patterns_def Let_def fs_def [symmetric]
    by (simp add: count_extended_card [OF d'] E_def)
  have spec: "spec_action E =
           (if E = {} then ''stop_all_notes''
               else if 4 \<le> card E then ''sustain_notes''
               else if ''index'' \<in> E \<and> ''middle'' \<notin> E \<and> ''ring'' \<notin> E \<and> ''pinky'' \<notin> E
               then ''single_note''
               else if ''index'' \<in> E \<and> ''middle'' \<in> E \<and> ''ring'' \<notin> E \<and> ''pinky'' \<notin> E
               then ''chord_mode''
               else ''multi_note'')"
    if sub: "E \<subseteq> {''thumb'', ''index'', ''middle'', ''ring'', ''pinky''}" and th: "''thumb'' \<notin> E"
  proof -
    have one: "E = {''index''} \<longleftrightarrow> ''index'' \<in> E \<and> ''middle'' \<notin> E \<and> ''ring'' \<notin> E \<and> ''pinky'' \<notin> E"
      using sub th by auto
    have two: "E = {''index'', ''middle''} \<longleftrightarrow> ''index'' \<in> E \<and> ''middle'' \<in> E \<and> ''ring'' \<notin> E \<and> ''pinky'' \<notin> E"
      using sub th by auto
    have zero: "card E = 0 \<longleftrightarrow> E = {}" using fin by simp
    show ?thesis unfolding spec_action_def by (simp only: one two zero)
  qed
  have both: "p_action (recognize_gesture_patterns hand) = spec_action E"
    if "E \<subseteq> {''thumb'', ''index'', ''middle'', ''ring'', ''pinky''} \<and> ''thumb'' \<notin> E"
    using act spec [OF conjunct1 [OF that] conjunct2 [OF that]] by (simp only:)
  show ?thesis
    unfolding Let_def
  proof (intro conjI impI)
    show "p_action (recognize_gesture_patterns hand) =
           (if extended_set (get_finger_states hand) = {} then ''stop_all_notes''
            else if 4 \<le> card (extended_set (get_finger_states hand)) then ''sustain_notes''
            else if ''index'' \<in> extended_set (get_finger_states hand) \<and>
                    ''middle'' \<notin> extended_set (get_finger_states hand) \<and>
                    ''ring'' \<notin> extended_set (get_finger_states hand) \<and>
                    ''pinky'' \<notin> extended_set (get_finger_states hand)
            then ''single_note''
            else if ''index'' \<in> extended_set (get_finger_states hand) \<and>
                    ''middle'' \<in> extended_set (get_finger_states hand) \<and>
                    ''ring'' \<notin> extended_set (get_finger_states hand) \<and>
                    ''pinky'' \<notin> extended_set (get_finger_states hand)
            then ''chord_mode''
            else ''multi_note'')"
      using act unfolding E_def fs_def .
    show "p_extended_fingers (recognize_gesture_patterns hand) = card (extended_set (get_finger_states hand))"
      using cnt unfolding E_def fs_def .
    assume "extended_set (get_finger_states hand) \<subseteq> {''thumb'', ''index'', ''middle'', ''ring'', ''pinky''} \<and>
            ''thumb'' \<notin> extended_set (get_finger_states hand)"
    then have "E \<subseteq> {''thumb'', ''index'', ''middle'', ''ring'', ''pinky''} \<and> ''thumb'' \<notin> E"
      unfolding E_def fs_def .
    from both [OF this]
    show "p_action (recognize_gesture_patterns hand) = spec_action (extended_set (get_finger_states hand))"
      unfolding E_def fs_def .
  qed
qed

theorem gesture_pattern_priority_witness:
  "p_action (recognize_gesture_patterns
      \<lparr> hd_handedness = Some ''Right'', hd_center = Some (320, 240),
        hd_finger_positions = None,
        hd_gesture_features = Some \<lparr> gf_finger_states =
          Some [(''thumb'', False), (''index'', True), (''middle'', True), (''ring'', False), (''pinky'', False)],
          gf_hand_size = Some 100 \<rparr> \<rparr>)
     = ''chord_mode'' \<and>
   spec_action {''index'', ''middle''} = ''chord_mode''"
  using gesture_pattern_priority [of
      "\<lparr> hd_handedness = Some ''Right'', hd_center = Some (320, 240),
        hd_finger_positions = None,
        hd_gesture_features = Some \<lparr> gf_finger_states =
          Some [(''thumb'', False), (''index'', True), (''middle'', True), (''ring'', False), (''pinky'', False)],
          gf_hand_size = Some 100 \<rparr> \<rparr>"]
  by (simp add: get_finger_states_def extended_set_def Let_def spec_action_def)

text \<open>
  C5 as stated says that a hand with exactly thumb and index extended is MultiNote.
  \<open>_is_pointing\<close> does not read the thumb, so that hand is SingleNote.
\<close>

theorem thumb_and_index_is_single_note:
  "p_action (recognize_gesture_patterns
      \<lparr> hd_handedness = Some ''Right'', hd_center = Some (320, 240),
        hd_finger_positions = None,
        hd_gesture_features = Some \<lparr> gf_finger_states =
          Some [(''thumb'', True), (''index'', True), (''middle'', False), (''ring'', False), (''pinky'', False)],
          gf_hand_size = Some 100 \<rparr> \<rparr>)
     = ''single_note'' \<and>
   spec_action {''thumb'', ''index''} = ''multi_note''"
  by (simp add: recognize_gesture_patterns_def get_finger_states_def is_fist_def
      is_open_hand_def is_pointing_def sum_values_def dict_get_def Let_def
      spec_action_def doubleton_eq_iff)

subsection \<open>C6: positions outside the grid\<close>




subsection \<open>C9: hand-pose records with a missing entry\<close>

text \<open>
  C9 says that \<open>analyze_hand\<close> returns an empty intent and never raises when the record
  lacks \<open>finger_positions\<close> or \<open>center\<close>. \<open>_analyze_finger_positions\<close> reads
  \<open>finger_positions\<close> with a default and returns no notes, but the store at the end of
  \<open>analyze_hand\<close> subscripts \<open>hand_data['finger_positions']\<close>, and
  \<open>_analyze_hand_movement\<close> subscripts \<open>hand_data['center']\<close>: both records raise
  \<open>KeyError\<close>.
\<close>

theorem analyze_hand_raises_without_landmarks:
  "analyze_hand
     \<lparr> hd_handedness = Some ''Right'', hd_center = Some (320, 240), hd_finger_positions = None,
       hd_gesture_features = None \<rparr> 0 init_recognizer = Inl (KeyError ''finger_positions'') \<and>
   analyze_hand
     \<lparr> hd_handedness = Some ''Right'', hd_center = None,
       hd_finger_positions = Some \<lparr> fp_tips = None, fp_mcp = None, fp_wrist = None \<rparr>,
       hd_gesture_features = None \<rparr> 0 init_recognizer = Inl (KeyError ''center'')"
  by (simp add: analyze_hand_def analyze_finger_positions_def analyze_hand_movement_def
      init_recognizer_def get_handedness_def Let_def)

subsection \<open>C10: zones above pitch 127\<close>

text \<open>
  C10: every grid zone is stored with note number \<open>60 + 12 * octave + 2 * zone\<close>,
  unclamped. The zones with a note number above 127 are the six zones octave 5 zone 4 and
  octave 6 zones 0 to 4, with note numbers 128, 132, 134, 136, 138, 140 under six
  different names, and a trigger with the note number of any of them, on a sequencer
  where pitch 127 is not sounding, is emitted as a NoteOn with pitch 127.
\<close>

theorem high_zones_collapse_to_127:
  "(\<forall>octave < 7. \<forall>zone < 5.
      zone_entry octave zone \<in> set note_zones \<and>
      z_note_number (snd (zone_entry octave zone)) = 60 + 12 * int octave + 2 * int zone) \<and>
   filter (\<lambda>(note_name, z). 127 < z_note_number z) note_zones =
     [zone_entry 5 4, zone_entry 6 0, zone_entry 6 1, zone_entry 6 2, zone_entry 6 3, zone_entry 6 4] \<and>
   map (\<lambda>(note_name, z). (note_name, z_note_number z))
       (filter (\<lambda>(note_name, z). 127 < z_note_number z) note_zones) =
     [(''G#5'', 128), (''C6'', 132), (''D6'', 134), (''E6'', 136), (''F#6'', 138), (''G#6'', 140)] \<and>
   (\<forall>(note_name, z) \<in> set note_zones. 127 < z_note_number z \<longrightarrow>
      (\<forall>nd t s. nd_note_number nd = Some (z_note_number z) \<and> \<not> note_lock s \<and>
                 127 \<notin> set (current_notes s) \<longrightarrow>
         (\<exists>e s'. create_note_event nd t s = Some (Some e, s') \<and> is_NoteOn e \<and> ev_note e = 127)))"
proof (intro conjI)
  show "\<forall>octave < 7. \<forall>zone < 5.
      zone_entry octave zone \<in> set note_zones \<and>
      z_note_number (snd (zone_entry octave zone)) = 60 + 12 * int octave + 2 * int zone"
    unfolding set_note_zones by (auto simp add: zone_entry_def Let_def)
  show "filter (\<lambda>(note_name, z). 127 < z_note_number z) note_zones =
     [zone_entry 5 4, zone_entry 6 0, zone_entry 6 1, zone_entry 6 2, zone_entry 6 3, zone_entry 6 4]"
    by (simp add: note_zones_grid upt5 upt7 zone_entry_eq)
  show "map (\<lambda>(note_name, z). (note_name, z_note_number z))
       (filter (\<lambda>(note_name, z). 127 < z_note_number z) note_zones) =
     [(''G#5'', 128), (''C6'', 132), (''D6'', 134), (''E6'', 136), (''F#6'', 138), (''G#6'', 140)]"
    by (simp add: note_zones_grid upt5 upt7 zone_entry_eq
        get_note_name_def note_names_def str_nat.simps digit_char_def Let_def)
  show "\<forall>(note_name, z) \<in> set note_zones. 127 < z_note_number z \<longrightarrow>
      (\<forall>nd t s. nd_note_number nd = Some (z_note_number z) \<and> \<not> note_lock s \<and>
                 127 \<notin> set (current_notes s) \<longrightarrow>
         (\<exists>e s'. create_note_event nd t s = Some (Some e, s') \<and> is_NoteOn e \<and> ev_note e = 127))"
  proof (intro ballI, clarify)
    fix note_name :: string and z :: zone and nd :: note_data and t :: real and s :: midi_generator
    assume "127 < z_note_number z" "nd_note_number nd = Some (z_note_number z)"
      "\<not> note_lock s" "127 \<notin> set (current_notes s)"
    then show "\<exists>e s'. create_note_event nd t s = Some (Some e, s') \<and> is_NoteOn e \<and> ev_note e = 127"
      by (simp add: create_note_event_free clamp_high note_on_event_def del: max.absorb1 max.absorb2 min.absorb1 min.absorb2)
  qed
qed

theorem high_zones_collapse_to_127_witness:
  "\<exists>e s'. create_note_event
       \<lparr> nd_note_number = Some (z_note_number (snd (zone_entry 6 4))), nd_note_name = Some ''G#6'',
         nd_velocity = Some 64, nd_finger = Some ''index'', nd_position = None \<rparr>
       0 (init_generator 0) = Some (Some e, s') \<and> is_NoteOn e \<and> ev_note e = 127"
proof -
  have m: "zone_entry 6 4 \<in> set note_zones"
    using high_zones_collapse_to_127 by simp
  have n: "127 < z_note_number (snd (zone_entry 6 4))"
    by (simp add: zone_entry_def Let_def)
  have "case zone_entry 6 4 of (note_name, z) \<Rightarrow> 127 < z_note_number z \<longrightarrow>
      (\<forall>nd t s. nd_note_number nd = Some (z_note_number z) \<and> \<not> note_lock s \<and>
                 127 \<notin> set (current_notes s) \<longrightarrow>
         (\<exists>e s'. create_note_event nd t s = Some (Some e, s') \<and> is_NoteOn e \<and> ev_note e = 127))"
    by (rule bspec [OF high_zones_collapse_to_127 [THEN conjunct2, THEN conjunct2, THEN conjunct2] m])
  with n have "\<forall>nd t s. nd_note_number nd = Some (z_note_number (snd (zone_entry 6 4))) \<and> \<not> note_lock s \<and>
                 127 \<notin> set (current_notes s) \<longrightarrow>
         (\<exists>e s'. create_note_event nd t s = Some (Some e, s') \<and> is_NoteOn e \<and> ev_note e = 127)"
    by (simp add: case_prod_beta)
  then show ?thesis by (simp add: init_generator_def)
qed

section \<open>The claim about the synthesizer\<close>

subsection \<open>C7: envelope values at the note duration\<close>

text \<open>
  C7, amended: with the note duration \<open>D = 0.5\<close>, the envelope is 0 at 0, 1 at the end
  of the attack, 0 at \<open>D\<close>, and monotonic within each phase (rising before 0.1, falling
  on \<open>[0.1, 0.3)\<close>, falling from 0.3 on). At \<open>attack + decay = 0.3\<close> its value is
  \<open>7/15\<close>, not 0.7: the release phase starts at \<open>D - release = 0.2\<close>, so at 0.3 a third
  of the release has passed and the sustain phase is empty. The value at
  \<open>attack + decay\<close> is 0.7 for every duration of at least 0.6.
\<close>

theorem envelope_at_note_duration:
  "calculate_envelope 0 note_duration = 0 \<and>
   calculate_envelope 0.1 note_duration = 1 \<and>
   calculate_envelope (0.1 + 0.2) note_duration = 7 / 15 \<and>
   calculate_envelope note_duration note_duration = 0 \<and>
   (s \<le> t \<and> t < 0.1 \<longrightarrow> calculate_envelope s note_duration \<le> calculate_envelope t note_duration) \<and>
   (0.1 \<le> s \<and> s \<le> t \<and> t < 0.1 + 0.2 \<longrightarrow>
      calculate_envelope t note_duration \<le> calculate_envelope s note_duration) \<and>
   (0.1 + 0.2 \<le> s \<and> s \<le> t \<longrightarrow>
      calculate_envelope t note_duration \<le> calculate_envelope s note_duration) \<and>
   (0.6 \<le> D \<longrightarrow> calculate_envelope (0.1 + 0.2) D = 0.7)"
  by (simp add: calculate_envelope_def note_duration_def Let_def field_simps)

theorem envelope_at_note_duration_witness:
  "calculate_envelope (5 / 100) note_duration \<le> calculate_envelope (8 / 100) note_duration \<and>
   calculate_envelope (25 / 100) note_duration \<le> calculate_envelope (15 / 100) note_duration \<and>
   calculate_envelope (45 / 100) note_duration \<le> calculate_envelope (35 / 100) note_duration \<and>
   calculate_envelope (0.1 + 0.2) (6 / 10) = 0.7"
  using envelope_at_note_duration [of "5 / 100" "8 / 100" "6 / 10"]
    envelope_at_note_duration [of "15 / 100" "25 / 100" "6 / 10"]
    envelope_at_note_duration [of "35 / 100" "45 / 100" "6 / 10"]
  by simp

text \<open>
  C7 as stated has \<open>envelope(attack + decay) = 0.7\<close> at \<open>D = 0.5\<close>; the value there
  differs from 0.7 by more than 0.2. (In binary64 the argument \<open>0.1 + 0.2\<close> is the very
  number the code compares it with, so the same branch, the release, is taken.)
\<close>

theorem envelope_not_sustain_level_after_decay:
  "\<bar>calculate_envelope (0.1 + 0.2) note_duration - 0.7\<bar> > 0.2"
  by (simp add: calculate_envelope_def note_duration_def Let_def)

end
